theory Spec2Isabelle
  imports Main "HOL-Library.Word" "HOL-Library.Multiset"
begin

section \<open>Shared vocabulary\<close>

text \<open>
  The repository has two halves in \<^verbatim>\<open>prover.go\<close>: the prover agent (package
  \<^verbatim>\<open>prover\<close>) and the layer-2 relayer (package \<^verbatim>\<open>relayer\<close>). Both are sequential code
  around external collaborators (durable stack, coordinator client, proof engine, chain
  endpoint, database, transaction sender, ABI encoder). A collaborator is modelled by the
  answer it gives, held in an environment record; every call made to a collaborator is
  recorded, in program order, in a list of events returned beside the result. Logging and
  metric counters are left out: no decision of the code reads them.
\<close>

text \<open>
  Go \<^verbatim>\<open>error\<close> values. The sentinels are the ones the source compares against;
  \<open>ErrorNew m\<close> is \<^verbatim>\<open>errors.New(m)\<close> or any other error whose message is \<open>m\<close>;
  \<open>Errorf p e\<close> is \<^verbatim>\<open>fmt.Errorf(p + "%v", e)\<close>; \<open>ErrSubmit c m\<close> is the error built
  from a coordinator answer with code \<open>c\<close> and message \<open>m\<close>; \<open>ErrUnknownProofType n\<close>
  is the error built from a task whose proof type is the unknown value \<open>n\<close>.
\<close>

datatype error =
    ErrEmpty
  | ErrNoAvailableAccount
  | ErrFullPending
  | ErrorNew string
  | Errorf string error
  | ErrSubmit int string
  | ErrUnknownProofType nat

text \<open>A call either returns or panics (a Go panic ends the process: nothing recovers it).\<close>

datatype 'a outcome = Return 'a | Panic

section \<open>Prover agent\<close>

subsection \<open>Data\<close>

type_synonym Hash = string
type_synonym ChunkProof = string
type_synonym BatchProof = string
type_synonym ChunkInfo = string

text \<open>\<^verbatim>\<open>message.ProofType\<close>: the two values the source names, and any other value.\<close>

datatype ProofType = ProofTypeChunk | ProofTypeBatch | ProofTypeOther nat

datatype RespStatus = StatusOk | StatusProofError

text \<open>
  \<^verbatim>\<open>types.BlockTrace\<close>: the header number is a \<^verbatim>\<open>*big.Int\<close>; the rest of the trace
  is opaque.
\<close>

record BlockTrace =
  Header_Number :: int
  Trace_Data :: string

text \<open>
  \<^verbatim>\<open>message.TaskMsg\<close>. \<open>ChunkTaskDetail\<close> and \<open>BatchTaskDetail\<close> are pointers (the source
  compares them with \<^verbatim>\<open>nil\<close>): \<open>None\<close> is \<^verbatim>\<open>nil\<close>. A chunk detail holds
  \<open>BlockHashes\<close>, a batch detail holds \<open>ChunkInfos\<close> and \<open>ChunkProofs\<close>.
\<close>

record TaskMsg =
  task_ID :: string
  task_Type :: ProofType
  ChunkTaskDetail :: "Hash list option"
  BatchTaskDetail :: "(ChunkInfo list \<times> ChunkProof list) option"

text \<open>
  \<^verbatim>\<open>store.ProvingTask\<close>. \<open>Times\<close> is a Go \<^verbatim>\<open>int\<close>; the only arithmetic on it is
  \<open>Times + 1\<close> under the guard \<open>Times \<le> 2\<close>, which cannot wrap, so it is an \<open>int\<close> here.
\<close>

record ProvingTask =
  Task :: TaskMsg
  Times :: int

record ProofDetail =
  detail_ID :: string
  detail_Type :: ProofType
  detail_Status :: RespStatus
  detail_ChunkProof :: "ChunkProof option"
  detail_BatchProof :: "BatchProof option"
  detail_Error :: string

record ProverTasksRequest =
  ProverVersion :: string
  ProverHeight :: int
  tasks_ProofType :: ProofType

record ProverTasksData =
  TaskID :: string
  data_ProofType :: ProofType
  ProofData :: string

record SubmitProofRequest =
  submit_TaskID :: string
  submit_Status :: RespStatus
  submit_Error :: string
  submit_ProofType :: ProofType
  submit_Signature :: string
  submit_Proof :: string

text \<open>
  What the proof engine does with a call: it returns a proof, returns an error (kept by
  its message, the only thing the prover reads), or panics.
\<close>

datatype 'a proving = Proof 'a | ProvingError string | ProvingPanic

subsection \<open>Collaborators and events\<close>

record ProverEnv =
  cfg_ProofType :: ProofType
  Version :: string
  Peek :: "error + ProvingTask"
  UpdateTimes :: "ProvingTask \<Rightarrow> int \<Rightarrow> error option"
  Delete :: "string \<Rightarrow> error option"
  GetLatestConfirmedBlockNumber :: "error + 64 word"
  ProverTasks :: "ProverTasksRequest \<Rightarrow> error + ProverTasksData option"
  UnmarshalBlockHashes :: "string \<Rightarrow> error + Hash list"
  UnmarshalChunkProofs :: "string \<Rightarrow> error + ChunkProof list"
  GetBlockTraceByHash :: "Hash \<Rightarrow> error + BlockTrace"
  ProveChunk :: "string \<Rightarrow> BlockTrace list \<Rightarrow> ChunkProof proving"
  ProveBatch :: "string \<Rightarrow> ChunkInfo list \<Rightarrow> ChunkProof list \<Rightarrow> BatchProof proving"
  Sign :: "ProofDetail \<Rightarrow> error + string"
  Marshal :: "ChunkProof option \<Rightarrow> BatchProof option \<Rightarrow> error + string"
  SubmitProof :: "SubmitProofRequest \<Rightarrow> error + (int \<times> string)"

datatype event =
    CallPeek
  | CallUpdateTimes string int
  | CallDelete string
  | CallGetLatestConfirmedBlockNumber
  | CallProverTasks ProverTasksRequest
  | CallSleep
  | CallGetBlockTraceByHash Hash
  | CallProveChunk string "BlockTrace list"
  | CallProveBatch string "ChunkInfo list" "ChunkProof list"
  | CallSign ProofDetail
  | CallSubmitProof SubmitProofRequest

subsection \<open>\<^verbatim>\<open>getSortedTracesByHashes\<close>\<close>

text \<open>
  \<^verbatim>\<open>big.Int.Int64\<close>: the low 64 bits, read as two's complement. It is the number itself
  when the number fits in 64 signed bits.
\<close>

definition Int64 :: "int \<Rightarrow> int" where
  "Int64 n = sint (word_of_int n :: 64 word)"

text \<open>The comparison handed to \<^verbatim>\<open>sort.Slice\<close>.\<close>

definition traceLess :: "BlockTrace \<Rightarrow> BlockTrace \<Rightarrow> bool" where
  "traceLess a b \<longleftrightarrow> Int64 (Header_Number a) < Int64 (Header_Number b)"

text \<open>
  \<^verbatim>\<open>sort.Slice\<close> is the Go library's, not this repository's. It is modelled by the
  insertion sort the library runs on short slices: each element in turn is swapped to the
  left while it is less than its left neighbour. \<open>bubble\<close> takes the part already sorted in
  reverse order (nearest neighbour first). This sort is stable; the library's is not on
  slices of more than 12 elements, so traces of equal height may come out of the code in
  another order than here. The results below use only that the outcome is an ordered
  rearrangement of the slice, which is the library's contract, and say nothing about the
  order of equal heights.
\<close>

fun bubble :: "('a \<Rightarrow> 'a \<Rightarrow> bool) \<Rightarrow> 'a \<Rightarrow> 'a list \<Rightarrow> 'a list" where
  "bubble lt x [] = [x]"
| "bubble lt x (p # ps) = (if lt x p then p # bubble lt x ps else x # p # ps)"

definition sortSlice :: "('a \<Rightarrow> 'a \<Rightarrow> bool) \<Rightarrow> 'a list \<Rightarrow> 'a list" where
  "sortSlice lt xs = rev (foldl (\<lambda>sorted_part x. bubble lt x sorted_part) [] xs)"

text \<open>The loop of \<^verbatim>\<open>getSortedTracesByHashes\<close>: it stops at the first failed fetch.\<close>

fun fetchTraces ::
  "ProverEnv \<Rightarrow> Hash list \<Rightarrow> BlockTrace list \<Rightarrow> event list \<times> (error + BlockTrace list)" where
  "fetchTraces env [] traces = ([], Inr traces)"
| "fetchTraces env (blockHash # rest) traces =
     (case GetBlockTraceByHash env blockHash of
        Inl err \<Rightarrow> ([CallGetBlockTraceByHash blockHash], Inl err)
      | Inr trace \<Rightarrow>
          (case fetchTraces env rest (traces @ [trace]) of
             (evs, r) \<Rightarrow> (CallGetBlockTraceByHash blockHash # evs, r)))"

definition getSortedTracesByHashes ::
  "ProverEnv \<Rightarrow> Hash list \<Rightarrow> event list \<times> (error + BlockTrace list)" where
  "getSortedTracesByHashes env blockHashes =
     (case fetchTraces env blockHashes [] of
        (evs, Inl err) \<Rightarrow> (evs, Inl err)
      | (evs, Inr traces) \<Rightarrow> (evs, Inr (sortSlice traceLess traces)))"

subsection \<open>\<^verbatim>\<open>proveChunk\<close>, \<^verbatim>\<open>proveBatch\<close>, \<^verbatim>\<open>prove\<close>\<close>

definition proveChunk :: "ProverEnv \<Rightarrow> ProvingTask \<Rightarrow> event list \<times> ChunkProof proving" where
  "proveChunk env task =
     (case ChunkTaskDetail (Task task) of
        None \<Rightarrow> ([], ProvingError ''ChunkTaskDetail is empty'')
      | Some blockHashes \<Rightarrow>
          (case getSortedTracesByHashes env blockHashes of
             (evs, Inl err) \<Rightarrow> (evs, ProvingError ''get traces from eth node failed'')
           | (evs, Inr traces) \<Rightarrow>
               (evs @ [CallProveChunk (task_ID (Task task)) traces],
                ProveChunk env (task_ID (Task task)) traces)))"

definition proveBatch :: "ProverEnv \<Rightarrow> ProvingTask \<Rightarrow> event list \<times> BatchProof proving" where
  "proveBatch env task =
     (case BatchTaskDetail (Task task) of
        None \<Rightarrow> ([], ProvingError ''BatchTaskDetail is empty'')
      | Some (chunkInfos, chunkProofs) \<Rightarrow>
          ([CallProveBatch (task_ID (Task task)) chunkInfos chunkProofs],
           ProveBatch env (task_ID (Task task)) chunkInfos chunkProofs))"

text \<open>
  \<^verbatim>\<open>prove\<close> switches on the prover's configured type \<^verbatim>\<open>r.Type()\<close>, not on the
  task's; the detail carries the task's identifier and type.
\<close>

definition prove :: "ProverEnv \<Rightarrow> ProvingTask \<Rightarrow> event list \<times> ProofDetail outcome" where
  "prove env task =
     (let detail = \<lparr>detail_ID = task_ID (Task task), detail_Type = task_Type (Task task),
                     detail_Status = StatusOk, detail_ChunkProof = None,
                     detail_BatchProof = None, detail_Error = ''''\<rparr>
      in case cfg_ProofType env of
           ProofTypeChunk \<Rightarrow>
             (case proveChunk env task of
                (evs, ProvingError msg) \<Rightarrow>
                  (evs, Return (detail\<lparr>detail_Status := StatusProofError, detail_Error := msg\<rparr>))
              | (evs, Proof proof) \<Rightarrow> (evs, Return (detail\<lparr>detail_ChunkProof := Some proof\<rparr>))
              | (evs, ProvingPanic) \<Rightarrow> (evs, Panic))
         | ProofTypeBatch \<Rightarrow>
             (case proveBatch env task of
                (evs, ProvingError msg) \<Rightarrow>
                  (evs, Return (detail\<lparr>detail_Status := StatusProofError, detail_Error := msg\<rparr>))
              | (evs, Proof proof) \<Rightarrow> (evs, Return (detail\<lparr>detail_BatchProof := Some proof\<rparr>))
              | (evs, ProvingPanic) \<Rightarrow> (evs, Panic))
         | ProofTypeOther n \<Rightarrow> ([], Return detail))"

subsection \<open>\<^verbatim>\<open>signAndSubmitProof\<close>\<close>

definition signAndSubmitProof :: "ProverEnv \<Rightarrow> ProofDetail \<Rightarrow> event list \<times> error option" where
  "signAndSubmitProof env msg =
     (case Sign env msg of
        Inl err \<Rightarrow> ([CallSign msg], Some (Errorf ''error signing proof: '' err))
      | Inr signature \<Rightarrow>
          (case Marshal env (detail_ChunkProof msg) (detail_BatchProof msg) of
             Inl err \<Rightarrow> ([CallSign msg], Some (Errorf ''error marshaling proofs into JSON: '' err))
           | Inr proofJSON \<Rightarrow>
               (let req = \<lparr>submit_TaskID = detail_ID msg, submit_Status = detail_Status msg,
                           submit_Error = detail_Error msg, submit_ProofType = detail_Type msg,
                           submit_Signature = signature, submit_Proof = proofJSON\<rparr>
                in case SubmitProof env req of
                     Inl err \<Rightarrow>
                       ([CallSign msg, CallSubmitProof req],
                        Some (Errorf ''error submitting proof: '' err))
                   | Inr (errCode, errMsg) \<Rightarrow>
                       ([CallSign msg, CallSubmitProof req],
                        if errCode \<noteq> 200 then Some (ErrSubmit errCode errMsg) else None))))"

subsection \<open>\<^verbatim>\<open>fetchTaskFromServer\<close>\<close>

text \<open>
  The task is built with only \<open>ID\<close> and \<open>Type\<close> set, so both detail pointers are
  \<^verbatim>\<open>nil\<close>; the assignment \<^verbatim>\<open>provingTask.Task.ChunkTaskDetail.BlockHashes = blockHashes\<close>
  (and its batch twin) then stores through a \<^verbatim>\<open>nil\<close> pointer, which panics in Go. So a
  payload that decodes never yields a task.
\<close>

definition fetchTaskFromServer :: "ProverEnv \<Rightarrow> event list \<times> (error + ProvingTask) outcome" where
  "fetchTaskFromServer env =
     (case GetLatestConfirmedBlockNumber env of
        Inl err \<Rightarrow>
          ([CallGetLatestConfirmedBlockNumber],
           Return (Inl (Errorf ''failed to fetch latest confirmed block number: '' err)))
      | Inr latestBlockNumber \<Rightarrow>
          (let req = \<lparr>ProverVersion = Version env, ProverHeight = sint latestBlockNumber,
                      tasks_ProofType = cfg_ProofType env\<rparr>;
               evs = [CallGetLatestConfirmedBlockNumber, CallProverTasks req]
           in case ProverTasks env req of
                Inl err \<Rightarrow> (evs, Return (Inl err))
              | Inr None \<Rightarrow> (evs, Return (Inl (ErrorNew ''no tasks available'')))
              | Inr (Some d) \<Rightarrow>
                  (case data_ProofType d of
                     ProofTypeChunk \<Rightarrow>
                       (case UnmarshalBlockHashes env (ProofData d) of
                          Inl err \<Rightarrow> (evs, Return (Inl err))
                        | Inr blockHashes \<Rightarrow> (evs, Panic))
                   | ProofTypeBatch \<Rightarrow>
                       (case UnmarshalChunkProofs env (ProofData d) of
                          Inl err \<Rightarrow> (evs, Return (Inl err))
                        | Inr subProofs \<Rightarrow> (evs, Panic))
                   | ProofTypeOther n \<Rightarrow>
                       (evs, Return (Inl (ErrUnknownProofType n))))))"

subsection \<open>\<^verbatim>\<open>proveAndSubmit\<close>\<close>

text \<open>Lines 134 to 145: the task comes from the stack, or from the server when the stack is empty.\<close>

definition acquireTask :: "ProverEnv \<Rightarrow> event list \<times> (error + ProvingTask) outcome" where
  "acquireTask env =
     (case Peek env of
        Inr task \<Rightarrow> ([CallPeek], Return (Inr task))
      | Inl err \<Rightarrow>
          (if err \<noteq> ErrEmpty then ([CallPeek], Return (Inl err))
           else case fetchTaskFromServer env of
                  (evs, Panic) \<Rightarrow> (CallPeek # evs, Panic)
                | (evs, Return (Inl err')) \<Rightarrow> (CallPeek # evs @ [CallSleep], Return (Inl err'))
                | (evs, Return (Inr task)) \<Rightarrow> (CallPeek # evs, Return (Inr task))))"

text \<open>The detail built without proving, when the task has panicked too often.\<close>

definition panicDetail :: "ProvingTask \<Rightarrow> ProofDetail" where
  "panicDetail task =
     \<lparr>detail_ID = task_ID (Task task), detail_Type = task_Type (Task task),
      detail_Status = StatusProofError, detail_ChunkProof = None, detail_BatchProof = None,
      detail_Error = ''zk proving panic''\<rparr>"

text \<open>
  Lines 167 to 174: the deferred \<open>Delete\<close> is registered once \<open>proofMsg\<close> exists and runs
  after \<^verbatim>\<open>signAndSubmitProof\<close> has returned; its error is only logged, and the function
  returns what \<^verbatim>\<open>signAndSubmitProof\<close> returned.
\<close>

definition submitThenDelete :: "ProverEnv \<Rightarrow> ProvingTask \<Rightarrow> ProofDetail \<Rightarrow> event list \<times> error option" where
  "submitThenDelete env task proofMsg =
     (case signAndSubmitProof env proofMsg of
        (evs, r) \<Rightarrow> (evs @ [CallDelete (task_ID (Task task))], r))"

text \<open>Lines 147 to 174, for the task acquired.\<close>

definition attemptTask :: "ProverEnv \<Rightarrow> ProvingTask \<Rightarrow> event list \<times> error option outcome" where
  "attemptTask env task =
     (if Times task \<le> 2 then
        (case UpdateTimes env task (Times task + 1) of
           Some err \<Rightarrow> ([CallUpdateTimes (task_ID (Task task)) (Times task + 1)], Return (Some err))
         | None \<Rightarrow>
             (case prove env task of
                (evs, Panic) \<Rightarrow>
                  (CallUpdateTimes (task_ID (Task task)) (Times task + 1) # evs, Panic)
              | (evs, Return proofMsg) \<Rightarrow>
                  (case submitThenDelete env task proofMsg of
                     (evs', r) \<Rightarrow>
                       (CallUpdateTimes (task_ID (Task task)) (Times task + 1) # evs @ evs',
                        Return r))))
      else
        (case submitThenDelete env task (panicDetail task) of
           (evs, r) \<Rightarrow> (evs, Return r)))"

definition proveAndSubmit :: "ProverEnv \<Rightarrow> event list \<times> error option outcome" where
  "proveAndSubmit env =
     (case acquireTask env of
        (evs, Panic) \<Rightarrow> (evs, Panic)
      | (evs, Return (Inl err)) \<Rightarrow> (evs, Return (Some err))
      | (evs, Return (Inr task)) \<Rightarrow>
          (case attemptTask env task of (evs', r) \<Rightarrow> (evs @ evs', r)))"

section \<open>Layer-2 relayer\<close>

subsection \<open>Data\<close>

type_synonym bytes = "8 word list"

text \<open>
  The status types of \<^verbatim>\<open>common/types\<close> are integer types: the values the source
  names, and any other value.
\<close>

datatype ProvingStatus =
    ProvingTaskUnassigned
  | ProvingTaskAssigned
  | ProvingTaskProved
  | ProvingTaskFailed
  | ProvingTaskSkipped
  | ProvingTaskVerified
  | ProvingStatusOther nat

datatype RollupStatus =
    RollupCommitting
  | RollupCommitted
  | RollupCommitFailed
  | RollupFinalizing
  | RollupFinalized
  | RollupFinalizeFailed
  | RollupFinalizationSkipped
  | RollupStatusOther nat

datatype GasOracleStatus =
    GasOraclePending
  | GasOracleImporting
  | GasOracleImported
  | GasOracleFailed
  | GasOracleStatusOther nat

text \<open>
  A row of the batch table, with the fields the relayer reads. \<open>CreatedAt\<close> is an
  instant; the code only ever subtracts two of them (see \<open>ElapsedSeconds\<close> below).
\<close>

record BlockBatch =
  batch_Hash :: string
  batch_ProvingStatus :: ProvingStatus
  batch_RollupStatus :: RollupStatus
  batch_OracleStatus :: GasOracleStatus
  batch_CreatedAt :: int

text \<open>
  \<^verbatim>\<open>types.BatchData\<close>: the contract payload \<open>Batch\<close> (opaque) and the value of the
  method \<^verbatim>\<open>Hash()\<close>, 32 bytes.
\<close>

record BatchData =
  Batch :: string
  data_Hash :: bytes

text \<open>
  The fields of \<^verbatim>\<open>Layer2Relayer\<close> that the three submitters read or write. The two
  registries are \<^verbatim>\<open>sync.Map\<close>s from confirmation ID to batch hashes.
\<close>

record Layer2Relayer =
  lastGasPrice :: "64 word"
  minGasPrice :: "64 word"
  gasPriceDiff :: "64 word"
  FinalizeBatchIntervalSec :: "64 word"
  processingBatchesCommitment :: "string \<rightharpoonup> string list"
  processingFinalization :: "string \<rightharpoonup> string"

subsection \<open>Collaborators and calls\<close>

text \<open>
  The constant \<open>gasPriceDiffPrecision\<close>, the ABI encoder, the hash functions and
  \<^verbatim>\<open>utils.BufferToUint256Le\<close> are declared outside this file: they are parameters.
  \<open>ElapsedSeconds env a b\<close> stands for \<^verbatim>\<open>uint64(a.Sub(b).Seconds())\<close>, which goes through
  a 64-bit float. \<open>GetLatestFinalizingOrFinalizedBatch\<close> fails with an error known by
  its message, which is what the source compares. A proof or instance buffer is \<open>None\<close>
  when the slice is \<^verbatim>\<open>nil\<close>.
\<close>

record RelayerEnv =
  gasPriceDiffPrecision :: "64 word"
  GetLatestBatch :: "error + BlockBatch"
  SuggestGasPrice :: "error + int"
  PackSetL2BaseFee :: "int \<Rightarrow> error + bytes"
  GasOracleSendTransaction :: "string \<Rightarrow> bytes \<Rightarrow> error + string"
  UpdateL2GasOracleStatusAndOracleTxHash :: "string \<Rightarrow> GasOracleStatus \<Rightarrow> string \<Rightarrow> error option"
  PackCommitBatches :: "string list \<Rightarrow> error + bytes"
  Keccak256Hash :: "bytes \<Rightarrow> bytes"
  Hex :: "bytes \<Rightarrow> string"
  RollupSendTransaction :: "string \<Rightarrow> bytes \<Rightarrow> error + string"
  UpdateCommitTxHashAndRollupStatus :: "string \<Rightarrow> string \<Rightarrow> RollupStatus \<Rightarrow> error option"
  UpdateSkippedBatches :: "error + int"
  GetCommittedBatches :: "error + string list"
  GetBlockBatches :: "string \<Rightarrow> error + BlockBatch list"
  UpdateRollupStatus :: "string \<Rightarrow> RollupStatus \<Rightarrow> error option"
  GetLatestFinalizingOrFinalizedBatch :: "string + BlockBatch"
  ElapsedSeconds :: "int \<Rightarrow> int \<Rightarrow> 64 word"
  GetVerifiedProofAndInstanceCommitmentsByHash :: "string \<Rightarrow> error + (bytes option \<times> bytes option)"
  BufferToUint256Le :: "bytes \<Rightarrow> int list"
  PackFinalizeBatchWithProof :: "string \<Rightarrow> int list \<Rightarrow> int list \<Rightarrow> error + bytes"
  UpdateFinalizeTxHashAndRollupStatus :: "string \<Rightarrow> string \<Rightarrow> RollupStatus \<Rightarrow> error option"

datatype sender = GasOracleSender | RollupSender

datatype call =
    DbGetLatestBatch
  | L2SuggestGasPrice
  | SendTransaction sender string bytes
  | DbUpdateL2GasOracleStatusAndOracleTxHash string GasOracleStatus string
  | DbUpdateCommitTxHashAndRollupStatus string string RollupStatus
  | DbUpdateSkippedBatches
  | DbGetCommittedBatches
  | DbGetBlockBatches string
  | DbUpdateRollupStatus string RollupStatus
  | DbGetLatestFinalizingOrFinalizedBatch
  | DbGetVerifiedProofAndInstanceCommitmentsByHash string
  | DbUpdateFinalizeTxHashAndRollupStatus string string RollupStatus

subsection \<open>\<^verbatim>\<open>ProcessGasPriceOracle\<close>\<close>

text \<open>
  Lines 520 and 523, on \<^verbatim>\<open>uint64\<close>: the product, the sum and the difference wrap
  around.
\<close>

definition expectedDelta :: "64 word \<Rightarrow> 64 word \<Rightarrow> 64 word \<Rightarrow> 64 word" where
  "expectedDelta lastPrice diff precision = lastPrice * diff div precision"

definition shouldUpdateGasPrice :: "64 word \<Rightarrow> 64 word \<Rightarrow> 64 word \<Rightarrow> 64 word \<Rightarrow> 64 word \<Rightarrow> bool" where
  "shouldUpdateGasPrice lastPrice minPrice diff precision suggest \<longleftrightarrow>
     lastPrice = 0 \<or>
     (suggest \<ge> minPrice \<and>
      (suggest \<ge> lastPrice + expectedDelta lastPrice diff precision \<or>
       suggest \<le> lastPrice - expectedDelta lastPrice diff precision))"

text \<open>
  \<^verbatim>\<open>uint64(suggestGasPrice.Int64())\<close> keeps the low 64 bits of the suggested price.
\<close>

definition ProcessGasPriceOracle :: "RelayerEnv \<Rightarrow> Layer2Relayer \<Rightarrow> call list \<times> Layer2Relayer" where
  "ProcessGasPriceOracle env r =
     (case GetLatestBatch env of
        Inl err \<Rightarrow> ([DbGetLatestBatch], r)
      | Inr batch \<Rightarrow>
          (if batch_OracleStatus batch = GasOraclePending then
             (case SuggestGasPrice env of
                Inl err \<Rightarrow> ([DbGetLatestBatch, L2SuggestGasPrice], r)
              | Inr suggestGasPrice \<Rightarrow>
                  (let suggestGasPriceUint64 = (word_of_int suggestGasPrice :: 64 word)
                   in if shouldUpdateGasPrice (lastGasPrice r) (minGasPrice r) (gasPriceDiff r)
                           (gasPriceDiffPrecision env) suggestGasPriceUint64
                      then
                        (case PackSetL2BaseFee env suggestGasPrice of
                           Inl err \<Rightarrow> ([DbGetLatestBatch, L2SuggestGasPrice], r)
                         | Inr data \<Rightarrow>
                             (case GasOracleSendTransaction env (batch_Hash batch) data of
                                Inl err \<Rightarrow>
                                  ([DbGetLatestBatch, L2SuggestGasPrice,
                                    SendTransaction GasOracleSender (batch_Hash batch) data], r)
                              | Inr hash \<Rightarrow>
                                  (case UpdateL2GasOracleStatusAndOracleTxHash env
                                          (batch_Hash batch) GasOracleImporting hash of
                                     Some err \<Rightarrow>
                                       ([DbGetLatestBatch, L2SuggestGasPrice,
                                         SendTransaction GasOracleSender (batch_Hash batch) data,
                                         DbUpdateL2GasOracleStatusAndOracleTxHash
                                           (batch_Hash batch) GasOracleImporting hash], r)
                                   | None \<Rightarrow>
                                       ([DbGetLatestBatch, L2SuggestGasPrice,
                                         SendTransaction GasOracleSender (batch_Hash batch) data,
                                         DbUpdateL2GasOracleStatusAndOracleTxHash
                                           (batch_Hash batch) GasOracleImporting hash],
                                        r\<lparr>lastGasPrice := suggestGasPriceUint64\<rparr>))))
                      else ([DbGetLatestBatch, L2SuggestGasPrice], r)))
           else ([DbGetLatestBatch], r)))"

subsection \<open>\<^verbatim>\<open>SendCommitTx\<close>\<close>

definition SendCommitTx ::
  "RelayerEnv \<Rightarrow> Layer2Relayer \<Rightarrow> BatchData list \<Rightarrow> call list \<times> error option \<times> Layer2Relayer" where
  "SendCommitTx env r batchData =
     (if length batchData = 0 then ([], None, r)
      else
        (let commitBatches = map Batch batchData
         in case PackCommitBatches env commitBatches of
              Inl err \<Rightarrow> ([], Some err, r)
            | Inr calldata \<Rightarrow>
                (let bytes = concat (map data_Hash batchData);
                     txID = Hex env (Keccak256Hash env bytes)
                 in case RollupSendTransaction env txID calldata of
                      Inl err \<Rightarrow> ([SendTransaction RollupSender txID calldata], Some err, r)
                    | Inr txHash \<Rightarrow>
                        (let batchHashes = map (\<lambda>batch. Hex env (data_Hash batch)) batchData
                         in (SendTransaction RollupSender txID calldata #
                               map (\<lambda>h. DbUpdateCommitTxHashAndRollupStatus h txHash
                                           RollupCommitting) batchHashes,
                             None,
                             r\<lparr>processingBatchesCommitment :=
                                 (processingBatchesCommitment r)(txID \<mapsto> batchHashes)\<rparr>)))))"

subsection \<open>\<^verbatim>\<open>ProcessCommittedBatches\<close>\<close>

text \<open>
  Lines 697 to 742, the part of the \<open>Verified\<close> branch that runs under the deferred
  guard. The boolean is the variable \<open>success\<close> when the part returns.
\<close>

definition submitFinalize ::
  "RelayerEnv \<Rightarrow> Layer2Relayer \<Rightarrow> string \<Rightarrow> call list \<times> bool \<times> Layer2Relayer" where
  "submitFinalize env r hash =
     (case GetVerifiedProofAndInstanceCommitmentsByHash env hash of
        Inl err \<Rightarrow> ([DbGetVerifiedProofAndInstanceCommitmentsByHash hash], False, r)
      | Inr (None, _) \<Rightarrow> ([DbGetVerifiedProofAndInstanceCommitmentsByHash hash], False, r)
      | Inr (Some proofBuffer, None) \<Rightarrow>
          ([DbGetVerifiedProofAndInstanceCommitmentsByHash hash], False, r)
      | Inr (Some proofBuffer, Some icBuffer) \<Rightarrow>
          (if length proofBuffer mod 32 \<noteq> 0
           then ([DbGetVerifiedProofAndInstanceCommitmentsByHash hash], False, r)
           else if length icBuffer mod 32 \<noteq> 0
           then ([DbGetVerifiedProofAndInstanceCommitmentsByHash hash], False, r)
           else
             (let proof = BufferToUint256Le env proofBuffer;
                  instance = BufferToUint256Le env icBuffer
              in case PackFinalizeBatchWithProof env hash proof instance of
                   Inl err \<Rightarrow> ([DbGetVerifiedProofAndInstanceCommitmentsByHash hash], False, r)
                 | Inr data \<Rightarrow>
                     (let txID = hash @ ''-finalize''
                      in case RollupSendTransaction env txID data of
                           Inl err \<Rightarrow>
                             ([DbGetVerifiedProofAndInstanceCommitmentsByHash hash,
                               SendTransaction RollupSender txID data], False, r)
                         | Inr txHash \<Rightarrow>
                             ([DbGetVerifiedProofAndInstanceCommitmentsByHash hash,
                               SendTransaction RollupSender txID data,
                               DbUpdateFinalizeTxHashAndRollupStatus hash txHash RollupFinalizing],
                              True,
                              r\<lparr>processingFinalization :=
                                  (processingFinalization r)(txID \<mapsto> hash)\<rparr>)))))"

text \<open>
  Lines 687 to 695: the deferred function runs when the guarded part returns, and writes
  \<open>RollupFinalizationSkipped\<close> unless \<open>success\<close> is set.
\<close>

definition finalizeGuarded :: "RelayerEnv \<Rightarrow> Layer2Relayer \<Rightarrow> string \<Rightarrow> call list \<times> Layer2Relayer" where
  "finalizeGuarded env r hash =
     (case submitFinalize env r hash of
        (calls, success, r') \<Rightarrow>
          (if \<not> success then (calls @ [DbUpdateRollupStatus hash RollupFinalizationSkipped], r')
           else (calls, r')))"

text \<open>
  Lines 655 to 742, the \<open>Verified\<close> branch. The two returns before line 687 leave
  before the guard is registered.
\<close>

definition finalizeVerified ::
  "RelayerEnv \<Rightarrow> Layer2Relayer \<Rightarrow> string \<Rightarrow> BlockBatch \<Rightarrow> call list \<times> Layer2Relayer" where
  "finalizeVerified env r hash batch =
     (case GetLatestFinalizingOrFinalizedBatch env of
        Inr previousBatch \<Rightarrow>
          (if ElapsedSeconds env (batch_CreatedAt batch) (batch_CreatedAt previousBatch)
                < FinalizeBatchIntervalSec r
           then ([DbGetLatestFinalizingOrFinalizedBatch,
                  DbUpdateRollupStatus hash RollupFinalizationSkipped], r)
           else (case finalizeGuarded env r hash of
                   (calls, r') \<Rightarrow> (DbGetLatestFinalizingOrFinalizedBatch # calls, r')))
      | Inl msg \<Rightarrow>
          (if msg \<noteq> ''sql: no rows in result set''
           then ([DbGetLatestFinalizingOrFinalizedBatch], r)
           else (case finalizeGuarded env r hash of
                   (calls, r') \<Rightarrow> (DbGetLatestFinalizingOrFinalizedBatch # calls, r'))))"

text \<open>Lines 636 to 748: the switch on the proving status of the batch.\<close>

definition processBatch ::
  "RelayerEnv \<Rightarrow> Layer2Relayer \<Rightarrow> string \<Rightarrow> BlockBatch \<Rightarrow> call list \<times> Layer2Relayer" where
  "processBatch env r hash batch =
     (case batch_ProvingStatus batch of
        ProvingTaskUnassigned \<Rightarrow> ([], r)
      | ProvingTaskAssigned \<Rightarrow> ([], r)
      | ProvingTaskProved \<Rightarrow> ([], r)
      | ProvingTaskFailed \<Rightarrow> ([DbUpdateRollupStatus hash RollupFinalizationSkipped], r)
      | ProvingTaskSkipped \<Rightarrow> ([DbUpdateRollupStatus hash RollupFinalizationSkipped], r)
      | ProvingTaskVerified \<Rightarrow> finalizeVerified env r hash batch
      | ProvingStatusOther n \<Rightarrow> ([], r))"

definition ProcessCommittedBatches :: "RelayerEnv \<Rightarrow> Layer2Relayer \<Rightarrow> call list \<times> Layer2Relayer" where
  "ProcessCommittedBatches env r =
     (case GetCommittedBatches env of
        Inl err \<Rightarrow> ([DbUpdateSkippedBatches, DbGetCommittedBatches], r)
      | Inr [] \<Rightarrow> ([DbUpdateSkippedBatches, DbGetCommittedBatches], r)
      | Inr (hash # _) \<Rightarrow>
          (case GetBlockBatches env hash of
             Inl err \<Rightarrow> ([DbUpdateSkippedBatches, DbGetCommittedBatches, DbGetBlockBatches hash], r)
           | Inr [] \<Rightarrow> ([DbUpdateSkippedBatches, DbGetCommittedBatches, DbGetBlockBatches hash], r)
           | Inr (batch # _) \<Rightarrow>
               (case processBatch env r hash batch of
                  (calls, r') \<Rightarrow>
                    (DbUpdateSkippedBatches # DbGetCommittedBatches # DbGetBlockBatches hash # calls,
                     r'))))"

section \<open>Vocabulary of the results\<close>

text \<open>The calls that \<^verbatim>\<open>prove\<close> makes: fetching a block trace and invoking the proof engine.\<close>

definition provingCall :: "event \<Rightarrow> bool" where
  "provingCall e =
     (case e of
        CallGetBlockTraceByHash h \<Rightarrow> True
      | CallProveChunk taskID traces \<Rightarrow> True
      | CallProveBatch taskID infos proofs \<Rightarrow> True
      | _ \<Rightarrow> False)"

text \<open>
  A concrete run of the prover: a chunk prover, one task on the stack with two block
  hashes listed against their heights, and collaborators that all succeed.
\<close>

definition exampleTask :: ProvingTask where
  "exampleTask =
     \<lparr>Task = \<lparr>task_ID = ''t1'', task_Type = ProofTypeChunk,
              ChunkTaskDetail = Some [''h2'', ''h1''], BatchTaskDetail = None\<rparr>,
      Times = 0\<rparr>"

definition exampleProverEnv :: ProverEnv where
  "exampleProverEnv =
     \<lparr>cfg_ProofType = ProofTypeChunk,
      Version = ''v1'',
      Peek = Inr exampleTask,
      UpdateTimes = (\<lambda>task n. None),
      Delete = (\<lambda>taskID. None),
      GetLatestConfirmedBlockNumber = Inr 100,
      ProverTasks = (\<lambda>req. Inr None),
      UnmarshalBlockHashes = (\<lambda>payload. Inr []),
      UnmarshalChunkProofs = (\<lambda>payload. Inr []),
      GetBlockTraceByHash =
        (\<lambda>h. if h = ''h1'' then Inr \<lparr>Header_Number = 1, Trace_Data = ''first''\<rparr>
             else if h = ''h2'' then Inr \<lparr>Header_Number = 2, Trace_Data = ''second''\<rparr>
             else Inl (ErrorNew ''not found'')),
      ProveChunk = (\<lambda>taskID traces. Proof ''chunk-proof''),
      ProveBatch = (\<lambda>taskID infos proofs. Proof ''batch-proof''),
      Sign = (\<lambda>detail. Inr ''sig''),
      Marshal = (\<lambda>chunkProof batchProof. Inr ''json''),
      SubmitProof = (\<lambda>req. Inr (200, ''''))\<rparr>"

text \<open>The calls that remove a task from the stack.\<close>

definition isDelete :: "event \<Rightarrow> bool" where
  "isDelete e = (case e of CallDelete taskID \<Rightarrow> True | _ \<Rightarrow> False)"

text \<open>The same run with a stack that refuses to store the counter.\<close>

definition failingUpdateEnv :: ProverEnv where
  "failingUpdateEnv = exampleProverEnv\<lparr>UpdateTimes := (\<lambda>task n. Some (ErrorNew ''stack closed''))\<rparr>"

text \<open>The same task found on the stack after three panics.\<close>

definition poisonedTask :: ProvingTask where
  "poisonedTask = exampleTask\<lparr>Times := 3\<rparr>"

definition poisonedEnv :: ProverEnv where
  "poisonedEnv = exampleProverEnv\<lparr>Peek := Inr poisonedTask\<rparr>"

text \<open>The same run with a block whose height does not fit in 64 signed bits.\<close>

definition hugeHeightEnv :: ProverEnv where
  "hugeHeightEnv =
     exampleProverEnv\<lparr>GetBlockTraceByHash :=
       (\<lambda>h. if h = ''h1'' then Inr \<lparr>Header_Number = 1, Trace_Data = ''first''\<rparr>
            else if h = ''h2'' then Inr \<lparr>Header_Number = 2 ^ 63, Trace_Data = ''far''\<rparr>
            else Inl (ErrorNew ''not found''))\<rparr>"

text \<open>The calls that hand a transaction to a sender, and the calls that write a rollup status.\<close>

definition isSend :: "call \<Rightarrow> bool" where
  "isSend c = (case c of SendTransaction s txID data \<Rightarrow> True | _ \<Rightarrow> False)"

definition isRollupWrite :: "call \<Rightarrow> bool" where
  "isRollupWrite c =
     (case c of
        DbUpdateCommitTxHashAndRollupStatus h txHash status \<Rightarrow> True
      | DbUpdateRollupStatus h status \<Rightarrow> True
      | DbUpdateFinalizeTxHashAndRollupStatus h txHash status \<Rightarrow> True
      | _ \<Rightarrow> False)"

text \<open>
  The update rule in the words of the specification, on natural numbers: fire when there
  is no last price, or when the new price is at least the floor and differs from the last
  price by at least \<open>lastPrice * diffRatio / precision\<close>.
\<close>

definition gasOracleUpdateRule :: "nat \<Rightarrow> nat \<Rightarrow> nat \<Rightarrow> nat \<Rightarrow> nat \<Rightarrow> bool" where
  "gasOracleUpdateRule lastPrice minPrice diffRatio precision newPrice \<longleftrightarrow>
     lastPrice = 0 \<or>
     (newPrice \<ge> minPrice \<and>
      (if newPrice \<ge> lastPrice then newPrice - lastPrice else lastPrice - newPrice)
        \<ge> lastPrice * diffRatio div precision)"

text \<open>
  A concrete state of the relayer: one committed batch, verified, with no stored proof;
  no batch finalized before; a last gas price of 10 and a difference ratio of twice the
  precision; collaborators that all succeed. The hash functions are stand-ins.
\<close>

definition exampleBatch :: BlockBatch where
  "exampleBatch =
     \<lparr>batch_Hash = ''b1'', batch_ProvingStatus = ProvingTaskVerified,
      batch_RollupStatus = RollupCommitted, batch_OracleStatus = GasOraclePending,
      batch_CreatedAt = 1000\<rparr>"

definition exampleRelayer :: Layer2Relayer where
  "exampleRelayer =
     \<lparr>lastGasPrice = 10, minGasPrice = 0, gasPriceDiff = 2000000,
      FinalizeBatchIntervalSec = 60,
      processingBatchesCommitment = Map.empty, processingFinalization = Map.empty\<rparr>"

definition exampleRelayerEnv :: RelayerEnv where
  "exampleRelayerEnv =
     \<lparr>gasPriceDiffPrecision = 1000000,
      GetLatestBatch = Inr exampleBatch,
      SuggestGasPrice = Inr 15,
      PackSetL2BaseFee = (\<lambda>price. Inr [1]),
      GasOracleSendTransaction = (\<lambda>txID data. Inr ''0xa1''),
      UpdateL2GasOracleStatusAndOracleTxHash = (\<lambda>h status txHash. None),
      PackCommitBatches = (\<lambda>batches. Inr [2]),
      Keccak256Hash = (\<lambda>bs. rev bs),
      Hex = map (\<lambda>b. if b = 0 then CHR ''0'' else CHR ''f''),
      RollupSendTransaction = (\<lambda>txID data. Inr ''0xb2''),
      UpdateCommitTxHashAndRollupStatus = (\<lambda>h txHash status. None),
      UpdateSkippedBatches = Inr 0,
      GetCommittedBatches = Inr [''b1''],
      GetBlockBatches = (\<lambda>h. Inr [exampleBatch]),
      UpdateRollupStatus = (\<lambda>h status. None),
      GetLatestFinalizingOrFinalizedBatch = Inl ''sql: no rows in result set'',
      ElapsedSeconds = (\<lambda>a b. word_of_int (a - b)),
      GetVerifiedProofAndInstanceCommitmentsByHash = (\<lambda>h. Inr (None, None)),
      BufferToUint256Le = (\<lambda>buffer. []),
      PackFinalizeBatchWithProof = (\<lambda>h proof instance. Inr [3]),
      UpdateFinalizeTxHashAndRollupStatus = (\<lambda>h txHash status. None)\<rparr>"

text \<open>Variations of that state, one for each situation examined below.\<close>

definition provedBatchEnv :: RelayerEnv where
  "provedBatchEnv =
     exampleRelayerEnv\<lparr>GetBlockBatches :=
       (\<lambda>h. Inr [exampleBatch\<lparr>batch_ProvingStatus := ProvingTaskProved\<rparr>])\<rparr>"

definition recentFinalizeEnv :: RelayerEnv where
  "recentFinalizeEnv =
     exampleRelayerEnv\<lparr>GetLatestFinalizingOrFinalizedBatch :=
       Inr (exampleBatch\<lparr>batch_Hash := ''b0'', batch_RollupStatus := RollupFinalized,
                         batch_CreatedAt := 990\<rparr>)\<rparr>"

definition shortProofEnv :: RelayerEnv where
  "shortProofEnv =
     exampleRelayerEnv\<lparr>GetVerifiedProofAndInstanceCommitmentsByHash :=
       (\<lambda>h. Inr (Some [7], Some []))\<rparr>"

definition boundaryGasEnv :: RelayerEnv where
  "boundaryGasEnv = exampleRelayerEnv\<lparr>SuggestGasPrice := Inr 105\<rparr>"

definition steadyRelayer :: Layer2Relayer where
  "steadyRelayer = exampleRelayer\<lparr>lastGasPrice := 100, gasPriceDiff := 50000\<rparr>"

definition stillFinalizingEnv :: RelayerEnv where
  "stillFinalizingEnv =
     exampleRelayerEnv
       \<lparr>GetLatestFinalizingOrFinalizedBatch :=
          Inr (exampleBatch\<lparr>batch_Hash := ''b0'', batch_RollupStatus := RollupFinalizing,
                            batch_CreatedAt := 0\<rparr>),
        GetVerifiedProofAndInstanceCommitmentsByHash :=
          (\<lambda>h. Inr (Some (replicate 32 0), Some (replicate 32 0)))\<rparr>"

definition fullPendingEnv :: RelayerEnv where
  "fullPendingEnv = exampleRelayerEnv\<lparr>RollupSendTransaction := (\<lambda>txID data. Inl ErrFullPending)\<rparr>"

definition exampleBatchData :: "BatchData list" where
  "exampleBatchData = [\<lparr>Batch = ''batch-7'', data_Hash = [0, 1]\<rparr>,
                       \<lparr>Batch = ''batch-8'', data_Hash = [1, 1]\<rparr>]"

section \<open>Sorting the traces of a chunk\<close>

lemma mset_bubble: "mset (bubble lt x ps) = add_mset x (mset ps)"
  by (induction ps) auto

lemma set_bubble: "set (bubble lt x ps) = insert x (set ps)"
  by (induction ps) auto

lemma descending_bubble:
  assumes "sorted_wrt (\<lambda>a b. key b \<le> (key a :: int)) ps"
    and "\<And>a b. lt a b \<longleftrightarrow> key a < key b"
  shows "sorted_wrt (\<lambda>a b. key b \<le> key a) (bubble lt x ps)"
  using assms(1)
proof (induction ps)
  case Nil
  then show ?case by simp
next
  case (Cons p ps)
  show ?case
  proof (cases "lt x p")
    case True
    with Cons assms(2) show ?thesis
      by (auto simp: set_bubble)
  next
    case False
    with Cons assms(2) show ?thesis
      by (auto simp: not_less)
  qed
qed

lemma foldl_bubble_mset:
  "mset (foldl (\<lambda>sorted_part x. bubble lt x sorted_part) acc xs) = mset acc + mset xs"
  by (induction xs arbitrary: acc) (simp_all add: mset_bubble)

lemma foldl_bubble_descending:
  assumes "\<And>a b. lt a b \<longleftrightarrow> key a < (key b :: int)"
  shows "sorted_wrt (\<lambda>a b. key b \<le> key a) acc \<Longrightarrow>
    sorted_wrt (\<lambda>a b. key b \<le> key a) (foldl (\<lambda>sorted_part x. bubble lt x sorted_part) acc xs)"
proof (induction xs arbitrary: acc)
  case Nil
  then show ?case by simp
next
  case (Cons x xs)
  have "sorted_wrt (\<lambda>a b. key b \<le> key a) (bubble lt x acc)"
    using Cons.prems assms by (rule descending_bubble)
  then show ?case using Cons.IH by simp
qed

lemma mset_sortSlice: "mset (sortSlice lt xs) = mset xs"
  by (simp add: sortSlice_def foldl_bubble_mset)

lemma sorted_sortSlice:
  assumes "\<And>a b. lt a b \<longleftrightarrow> key a < (key b :: int)"
  shows "sorted (map key (sortSlice lt xs))"
proof -
  have "sorted_wrt (\<lambda>a b. key b \<le> key a) (foldl (\<lambda>sorted_part x. bubble lt x sorted_part) [] xs)"
    using assms by (rule foldl_bubble_descending) simp
  then show ?thesis
    by (simp add: sortSlice_def sorted_map sorted_wrt_rev)
qed

lemma fetchTraces_events:
  "e \<in> set (fst (fetchTraces env hs acc)) \<Longrightarrow> \<exists>h. e = CallGetBlockTraceByHash h"
proof (induction hs arbitrary: acc)
  case Nil
  then show ?case by simp
next
  case (Cons blockHash rest)
  show ?case
  proof (cases "GetBlockTraceByHash env blockHash")
    case (Inl err)
    with Cons.prems show ?thesis by simp
  next
    case (Inr trace)
    obtain evs r where run: "fetchTraces env rest (acc @ [trace]) = (evs, r)"
      by (cases "fetchTraces env rest (acc @ [trace])")
    from Cons.prems Inr run have "e = CallGetBlockTraceByHash blockHash \<or> e \<in> set evs"
      by simp
    moreover have "e \<in> set evs \<Longrightarrow> \<exists>h. e = CallGetBlockTraceByHash h"
      using Cons.IH [of "acc @ [trace]"] run by simp
    ultimately show ?thesis by blast
  qed
qed

lemma fetchTraces_ok:
  "\<forall>h\<in>set hs. \<not> isl (GetBlockTraceByHash env h) \<Longrightarrow>
   fetchTraces env hs acc =
     (map CallGetBlockTraceByHash hs, Inr (acc @ map (\<lambda>h. projr (GetBlockTraceByHash env h)) hs))"
  by (induction hs arbitrary: acc) (auto split: sum.splits prod.splits)

lemma fetchTraces_fail:
  "\<exists>h\<in>set hs. isl (GetBlockTraceByHash env h) \<Longrightarrow> isl (snd (fetchTraces env hs acc))"
proof (induction hs arbitrary: acc)
  case Nil
  then show ?case by simp
next
  case (Cons blockHash rest)
  show ?case
  proof (cases "GetBlockTraceByHash env blockHash")
    case (Inl err)
    then show ?thesis by simp
  next
    case (Inr trace)
    with Cons.prems have "\<exists>h\<in>set rest. isl (GetBlockTraceByHash env h)" by auto
    then have "isl (snd (fetchTraces env rest (acc @ [trace])))" by (rule Cons.IH)
    with Inr show ?thesis by (auto split: prod.splits)
  qed
qed

lemma Int64_in_range: "- (2 ^ 63) \<le> n \<Longrightarrow> n < 2 ^ 63 \<Longrightarrow> Int64 n = n"
  by (simp add: Int64_def sint_sbintrunc' signed_take_bit_int_eq_self)

lemma getSortedTraces_events:
  "e \<in> set (fst (getSortedTracesByHashes env hs)) \<Longrightarrow> \<exists>h. e = CallGetBlockTraceByHash h"
  using fetchTraces_events [of e env hs "[]"]
  by (auto simp: getSortedTracesByHashes_def split: prod.splits sum.splits)

lemma getSortedTraces_ok:
  "\<forall>h\<in>set hs. \<not> isl (GetBlockTraceByHash env h) \<Longrightarrow>
   getSortedTracesByHashes env hs =
     (map CallGetBlockTraceByHash hs,
      Inr (sortSlice traceLess (map (\<lambda>h. projr (GetBlockTraceByHash env h)) hs)))"
  by (simp add: getSortedTracesByHashes_def fetchTraces_ok)

lemma getSortedTraces_fail:
  "\<exists>h\<in>set hs. isl (GetBlockTraceByHash env h) \<Longrightarrow> isl (snd (getSortedTracesByHashes env hs))"
  using fetchTraces_fail [of hs env "[]"]
  by (auto simp: getSortedTracesByHashes_def split: prod.splits sum.splits)

lemma proveChunk_invokes_engine:
  assumes "ChunkTaskDetail (Task task) = Some hs"
    and "\<forall>h\<in>set hs. \<not> isl (GetBlockTraceByHash env h)"
  shows "fst (proveChunk env task) =
           map CallGetBlockTraceByHash hs @
           [CallProveChunk (task_ID (Task task))
              (sortSlice traceLess (map (\<lambda>h. projr (GetBlockTraceByHash env h)) hs))]"
  using assms by (simp add: proveChunk_def getSortedTraces_ok)

text \<open>
  Claim C8, amended. Whatever list of block hashes the task carries, a list of traces is
  handed to the chunk proof engine only when every fetch succeeded; it then holds exactly
  one trace per hash of the task (the fetched traces, rearranged) and is in ascending order
  of the header numbers as \<^verbatim>\<open>Int64()\<close> reads them, that is of their low 64 bits taken
  as a signed value. When every header number fits in 64 signed bits, that is the
  ascending order of the header numbers themselves.
\<close>

theorem chunk_traces_sorted:
  assumes "CallProveChunk taskID traces \<in> set (fst (proveChunk env task))"
  shows "\<exists>blockHashes.
           ChunkTaskDetail (Task task) = Some blockHashes \<and>
           (\<forall>h\<in>set blockHashes. \<not> isl (GetBlockTraceByHash env h)) \<and>
           mset traces = mset (map (\<lambda>h. projr (GetBlockTraceByHash env h)) blockHashes) \<and>
           length traces = length blockHashes \<and>
           sorted (map (\<lambda>t. Int64 (Header_Number t)) traces) \<and>
           ((\<forall>t\<in>set traces. - (2 ^ 63) \<le> Header_Number t \<and> Header_Number t < 2 ^ 63) \<longrightarrow>
              sorted (map Header_Number traces))"
proof (cases "ChunkTaskDetail (Task task)")
  case None
  with assms show ?thesis by (simp add: proveChunk_def)
next
  case (Some hs)
  let ?fetched = "map (\<lambda>h. projr (GetBlockTraceByHash env h)) hs"
  have all_ok: "\<forall>h\<in>set hs. \<not> isl (GetBlockTraceByHash env h)"
  proof (rule ccontr)
    assume "\<not> ?thesis"
    then have failed: "isl (snd (getSortedTracesByHashes env hs))"
      using getSortedTraces_fail by blast
    obtain evs err where run: "getSortedTracesByHashes env hs = (evs, Inl err)"
      using failed by (cases "getSortedTracesByHashes env hs") (auto simp: isl_def)
    with assms Some have "CallProveChunk taskID traces \<in> set evs"
      by (simp add: proveChunk_def)
    with run getSortedTraces_events [of "CallProveChunk taskID traces" env hs]
    show False by simp
  qed
  have "fst (proveChunk env task) =
          map CallGetBlockTraceByHash hs @
          [CallProveChunk (task_ID (Task task)) (sortSlice traceLess ?fetched)]"
    using Some all_ok by (rule proveChunk_invokes_engine)
  with assms have traces: "traces = sortSlice traceLess ?fetched"
    by auto
  have perm: "mset traces = mset ?fetched"
    by (simp add: traces mset_sortSlice)
  then have len: "length traces = length hs"
    by (metis length_map size_mset)
  have ordered: "sorted (map (\<lambda>t. Int64 (Header_Number t)) traces)"
    unfolding traces
    by (rule sorted_sortSlice) (simp add: traceLess_def)
  have plain: "sorted (map Header_Number traces)"
    if "\<forall>t\<in>set traces. - (2 ^ 63) \<le> Header_Number t \<and> Header_Number t < 2 ^ 63"
  proof -
    have "map (\<lambda>t. Int64 (Header_Number t)) traces = map Header_Number traces"
      using that by (simp add: Int64_in_range)
    with ordered show ?thesis by simp
  qed
  from Some all_ok perm len ordered plain show ?thesis by blast
qed

lemma example_proveChunk:
  "fst (proveChunk exampleProverEnv exampleTask) =
     [CallGetBlockTraceByHash ''h2'', CallGetBlockTraceByHash ''h1'',
      CallProveChunk ''t1'' [\<lparr>Header_Number = 1, Trace_Data = ''first''\<rparr>,
                            \<lparr>Header_Number = 2, Trace_Data = ''second''\<rparr>]]"
  by (simp add: proveChunk_def getSortedTracesByHashes_def exampleProverEnv_def exampleTask_def
      sortSlice_def traceLess_def Int64_def)

theorem chunk_traces_sorted_witness:
  "CallProveChunk ''t1'' [\<lparr>Header_Number = 1, Trace_Data = ''first''\<rparr>,
                         \<lparr>Header_Number = 2, Trace_Data = ''second''\<rparr>]
     \<in> set (fst (proveChunk exampleProverEnv exampleTask)) \<and>
   ChunkTaskDetail (Task exampleTask) = Some [''h2'', ''h1''] \<and>
   sorted (map Header_Number [\<lparr>Header_Number = 1, Trace_Data = ''first''\<rparr>,
                              \<lparr>Header_Number = 2, Trace_Data = ''second''\<rparr>])"
proof -
  have handed: "CallProveChunk ''t1'' [\<lparr>Header_Number = 1, Trace_Data = ''first''\<rparr>,
                         \<lparr>Header_Number = 2, Trace_Data = ''second''\<rparr>]
     \<in> set (fst (proveChunk exampleProverEnv exampleTask))"
    by (simp add: example_proveChunk)
  from chunk_traces_sorted [OF handed] handed show ?thesis
    by (simp add: exampleTask_def)
qed

lemma Int64_far: "Int64 9223372036854775808 = - 9223372036854775808" "Int64 1 = 1"
  by (simp_all add: Int64_def)

lemma huge_height_run:
  "fst (proveChunk hugeHeightEnv exampleTask) =
     [CallGetBlockTraceByHash ''h2'', CallGetBlockTraceByHash ''h1'',
      CallProveChunk ''t1'' [\<lparr>Header_Number = 2 ^ 63, Trace_Data = ''far''\<rparr>,
                            \<lparr>Header_Number = 1, Trace_Data = ''first''\<rparr>]]"
  by (simp add: proveChunk_def getSortedTracesByHashes_def hugeHeightEnv_def exampleProverEnv_def
      exampleTask_def sortSlice_def traceLess_def Int64_far)

text \<open>
  Claim C8, as stated, fails: of two blocks of heights \<open>2 ^ 63\<close> and 1, the first reads
  as \<open>- (2 ^ 63)\<close> through \<^verbatim>\<open>Int64()\<close> and is handed to the engine before the second,
  so the list is not in ascending order of header number.
\<close>

theorem traces_beyond_int64_counterexample:
  "ChunkTaskDetail (Task exampleTask) = Some [''h2'', ''h1''] \<and>
   GetBlockTraceByHash hugeHeightEnv ''h2'' = Inr \<lparr>Header_Number = 2 ^ 63, Trace_Data = ''far''\<rparr> \<and>
   GetBlockTraceByHash hugeHeightEnv ''h1'' = Inr \<lparr>Header_Number = 1, Trace_Data = ''first''\<rparr> \<and>
   CallProveChunk ''t1'' [\<lparr>Header_Number = 2 ^ 63, Trace_Data = ''far''\<rparr>,
                         \<lparr>Header_Number = 1, Trace_Data = ''first''\<rparr>]
     \<in> set (fst (proveChunk hugeHeightEnv exampleTask)) \<and>
   \<not> sorted (map Header_Number [\<lparr>Header_Number = 2 ^ 63, Trace_Data = ''far''\<rparr>,
                                 \<lparr>Header_Number = 1, Trace_Data = ''first''\<rparr>])"
  by (simp add: huge_height_run) (simp add: hugeHeightEnv_def exampleTask_def)

section \<open>One attempt at a task\<close>

lemma proveChunk_events: "e \<in> set (fst (proveChunk env task)) \<Longrightarrow> provingCall e"
proof (cases "ChunkTaskDetail (Task task)")
  case None
  then show "e \<in> set (fst (proveChunk env task)) \<Longrightarrow> provingCall e"
    by (simp add: proveChunk_def)
next
  case (Some hs)
  assume e: "e \<in> set (fst (proveChunk env task))"
  obtain evs r where run: "getSortedTracesByHashes env hs = (evs, r)"
    by (cases "getSortedTracesByHashes env hs")
  have fetch: "x \<in> set evs \<Longrightarrow> provingCall x" for x
    using getSortedTraces_events [of x env hs] run by (auto simp: provingCall_def)
  from e Some run show "provingCall e"
    by (cases r) (auto simp: proveChunk_def provingCall_def dest: fetch)
qed

lemma proveBatch_events: "e \<in> set (fst (proveBatch env task)) \<Longrightarrow> provingCall e"
  by (auto simp: proveBatch_def provingCall_def split: option.splits prod.splits)

lemma prove_events: "e \<in> set (fst (prove env task)) \<Longrightarrow> provingCall e"
proof (cases "cfg_ProofType env")
  case ProofTypeChunk
  assume "e \<in> set (fst (prove env task))"
  with ProofTypeChunk have "e \<in> set (fst (proveChunk env task))"
    by (cases "proveChunk env task") (auto simp: prove_def Let_def split: proving.splits)
  then show "provingCall e" by (rule proveChunk_events)
next
  case ProofTypeBatch
  assume "e \<in> set (fst (prove env task))"
  with ProofTypeBatch have "e \<in> set (fst (proveBatch env task))"
    by (cases "proveBatch env task") (auto simp: prove_def Let_def split: proving.splits)
  then show "provingCall e" by (rule proveBatch_events)
next
  case (ProofTypeOther n)
  assume "e \<in> set (fst (prove env task))"
  with ProofTypeOther show "provingCall e" by (simp add: prove_def)
qed

lemma signAndSubmitProof_events:
  "\<exists>rest. fst (signAndSubmitProof env msg) = CallSign msg # rest \<and>
          (\<forall>e\<in>set rest. \<exists>req. e = CallSubmitProof req)"
  by (auto simp: signAndSubmitProof_def Let_def split: sum.splits prod.splits)

lemma submitThenDelete_events:
  "\<exists>rest. fst (submitThenDelete env task msg) =
            CallSign msg # rest @ [CallDelete (task_ID (Task task))] \<and>
          (\<forall>e\<in>set rest. \<exists>req. e = CallSubmitProof req)"
proof -
  obtain evs r where run: "signAndSubmitProof env msg = (evs, r)"
    by (cases "signAndSubmitProof env msg")
  with signAndSubmitProof_events [of env msg] show ?thesis
    by (auto simp: submitThenDelete_def)
qed

lemma acquireTask_peeked: "Peek env = Inr task \<Longrightarrow> acquireTask env = ([CallPeek], Return (Inr task))"
  by (simp add: acquireTask_def)

lemma proveAndSubmit_peeked:
  "Peek env = Inr task \<Longrightarrow>
   proveAndSubmit env = (CallPeek # fst (attemptTask env task), snd (attemptTask env task))"
  by (simp add: proveAndSubmit_def acquireTask_peeked split: prod.splits)

lemma attemptTask_update_failed:
  "Times task \<le> 2 \<Longrightarrow> UpdateTimes env task (Times task + 1) = Some err \<Longrightarrow>
   attemptTask env task =
     ([CallUpdateTimes (task_ID (Task task)) (Times task + 1)], Return (Some err))"
  by (simp add: attemptTask_def)

lemma attemptTask_proving:
  "Times task \<le> 2 \<Longrightarrow> UpdateTimes env task (Times task + 1) = None \<Longrightarrow>
   attemptTask env task =
     (case prove env task of
        (evs, Panic) \<Rightarrow> (CallUpdateTimes (task_ID (Task task)) (Times task + 1) # evs, Panic)
      | (evs, Return proofMsg) \<Rightarrow>
          (CallUpdateTimes (task_ID (Task task)) (Times task + 1) # evs @
             fst (submitThenDelete env task proofMsg),
           Return (snd (submitThenDelete env task proofMsg))))"
  by (simp add: attemptTask_def split: prod.splits outcome.splits)

lemma attemptTask_poisoned:
  "\<not> Times task \<le> 2 \<Longrightarrow>
   attemptTask env task =
     (fst (submitThenDelete env task (panicDetail task)),
      Return (snd (submitThenDelete env task (panicDetail task))))"
  by (simp add: attemptTask_def split: prod.splits)

lemma provingCall_simps [simp]:
  "\<not> provingCall CallPeek" "\<not> provingCall (CallUpdateTimes i n)" "\<not> provingCall (CallDelete i)"
  "\<not> provingCall (CallSign d)" "\<not> provingCall (CallSubmitProof req)"
  "provingCall (CallGetBlockTraceByHash h)" "provingCall (CallProveChunk i ts)"
  "provingCall (CallProveBatch i cs ps)"
  by (simp_all add: provingCall_def)

lemma isDelete_simps [simp]:
  "\<not> isDelete CallPeek" "\<not> isDelete (CallUpdateTimes i n)" "isDelete (CallDelete i)"
  "\<not> isDelete (CallSign d)" "\<not> isDelete (CallSubmitProof req)"
  "\<not> isDelete (CallGetBlockTraceByHash h)" "\<not> isDelete (CallProveChunk i ts)"
  "\<not> isDelete (CallProveBatch i cs ps)"
  by (simp_all add: isDelete_def)

lemma provingCall_not_delete: "provingCall e \<Longrightarrow> \<not> isDelete e"
  by (cases e) (simp_all add: isDelete_def)

lemma filter_isDelete_proving: "\<forall>e\<in>set evs. provingCall e \<Longrightarrow> filter isDelete evs = []"
  by (simp add: filter_empty_conv provingCall_not_delete)

lemma filter_isDelete_submit: "\<forall>e\<in>set evs. \<exists>req. e = CallSubmitProof req \<Longrightarrow> filter isDelete evs = []"
  by (auto simp: filter_empty_conv)

lemma submitThenDelete_deletes:
  "filter isDelete (fst (submitThenDelete env task msg)) = [CallDelete (task_ID (Task task))] \<and>
   last (fst (submitThenDelete env task msg)) = CallDelete (task_ID (Task task))"
proof -
  obtain rest where shape: "fst (submitThenDelete env task msg) =
      CallSign msg # rest @ [CallDelete (task_ID (Task task))]"
    and rest: "\<forall>e\<in>set rest. \<exists>req. e = CallSubmitProof req"
    using submitThenDelete_events by blast
  from rest have "filter isDelete rest = []" by (rule filter_isDelete_submit)
  with shape show ?thesis by simp
qed

lemma prove_detail:
  assumes "prove env task = (evs, Return d)"
  shows "detail_ID d = task_ID (Task task) \<and> detail_Type d = task_Type (Task task) \<and>
         (detail_ChunkProof d = None \<or> detail_BatchProof d = None) \<and>
         (detail_Status d = StatusProofError \<longrightarrow>
            detail_ChunkProof d = None \<and> detail_BatchProof d = None) \<and>
         (detail_Status d = StatusOk \<and> cfg_ProofType env = ProofTypeChunk \<longrightarrow>
            detail_ChunkProof d \<noteq> None \<and> detail_BatchProof d = None) \<and>
         (detail_Status d = StatusOk \<and> cfg_ProofType env = ProofTypeBatch \<longrightarrow>
            detail_BatchProof d \<noteq> None \<and> detail_ChunkProof d = None) \<and>
         (detail_ChunkProof d \<noteq> None \<longrightarrow> cfg_ProofType env = ProofTypeChunk) \<and>
         (detail_BatchProof d \<noteq> None \<longrightarrow> cfg_ProofType env = ProofTypeBatch) \<and>
         (cfg_ProofType env = task_Type (Task task) \<longrightarrow>
            (detail_ChunkProof d \<noteq> None \<longrightarrow> detail_Type d = ProofTypeChunk) \<and>
            (detail_BatchProof d \<noteq> None \<longrightarrow> detail_Type d = ProofTypeBatch))"
proof (cases "cfg_ProofType env")
  case ProofTypeChunk
  with assms show ?thesis
    by (cases "proveChunk env task") (auto simp: prove_def Let_def split: proving.splits)
next
  case ProofTypeBatch
  with assms show ?thesis
    by (cases "proveBatch env task") (auto simp: prove_def Let_def split: proving.splits)
next
  case (ProofTypeOther n)
  with assms show ?thesis by (auto simp: prove_def)
qed

lemma attemptTask_signed:
  assumes "CallSign d \<in> set (fst (attemptTask env task))"
  shows "(Times task \<le> 2 \<and> (\<exists>evs. prove env task = (evs, Return d))) \<or>
         (\<not> Times task \<le> 2 \<and> d = panicDetail task)"
proof (cases "Times task \<le> 2")
  case False
  obtain rest where "fst (submitThenDelete env task (panicDetail task)) =
      CallSign (panicDetail task) # rest @ [CallDelete (task_ID (Task task))]"
    and "\<forall>e\<in>set rest. \<exists>req. e = CallSubmitProof req"
    using submitThenDelete_events by blast
  with assms False show ?thesis
    by (auto simp: attemptTask_poisoned)
next
  case True
  show ?thesis
  proof (cases "UpdateTimes env task (Times task + 1)")
    case (Some err)
    with assms True show ?thesis by (simp add: attemptTask_update_failed)
  next
    case None
    obtain evs out where run: "prove env task = (evs, out)"
      by (cases "prove env task")
    have quiet: "CallSign d \<notin> set evs"
      using prove_events [of "CallSign d" env task] run by auto
    show ?thesis
    proof (cases out)
      case Panic
      with assms True None run quiet show ?thesis by (simp add: attemptTask_proving)
    next
      case (Return proofMsg)
      obtain rest where "fst (submitThenDelete env task proofMsg) =
          CallSign proofMsg # rest @ [CallDelete (task_ID (Task task))]"
        and "\<forall>e\<in>set rest. \<exists>req. e = CallSubmitProof req"
        using submitThenDelete_events by blast
      with assms True None run quiet Return show ?thesis
        by (auto simp: attemptTask_proving)
    qed
  qed
qed

text \<open>
  Claim C3, amended. For a task peeked from the stack: when the counter update fails,
  \<^verbatim>\<open>proveAndSubmit\<close> returns the error having called neither the engine nor \<open>Delete\<close>;
  when the update succeeds or is not made (more than two earlier attempts), every run that
  returns has called \<open>Delete\<close> exactly once, for this task, as its last call, whatever
  proving and submission did.
\<close>

theorem task_deleted_once_after_attempt:
  assumes "Peek env = Inr task"
  shows "(Times task \<le> 2 \<and> UpdateTimes env task (Times task + 1) \<noteq> None \<longrightarrow>
            (\<exists>err. proveAndSubmit env =
               ([CallPeek, CallUpdateTimes (task_ID (Task task)) (Times task + 1)],
                Return (Some err)))) \<and>
         ((Times task \<le> 2 \<longrightarrow> UpdateTimes env task (Times task + 1) = None) \<longrightarrow>
            (\<forall>evs r. proveAndSubmit env = (evs, Return r) \<longrightarrow>
               filter isDelete evs = [CallDelete (task_ID (Task task))] \<and>
               last evs = CallDelete (task_ID (Task task))))"
proof (intro conjI impI allI)
  assume "Times task \<le> 2 \<and> UpdateTimes env task (Times task + 1) \<noteq> None"
  then obtain err where "Times task \<le> 2" "UpdateTimes env task (Times task + 1) = Some err"
    by auto
  then have "attemptTask env task =
     ([CallUpdateTimes (task_ID (Task task)) (Times task + 1)], Return (Some err))"
    by (rule attemptTask_update_failed)
  with assms show "\<exists>err. proveAndSubmit env =
               ([CallPeek, CallUpdateTimes (task_ID (Task task)) (Times task + 1)],
                Return (Some err))"
    by (simp add: proveAndSubmit_peeked)
next
  fix evs r
  assume upd: "Times task \<le> 2 \<longrightarrow> UpdateTimes env task (Times task + 1) = None"
    and run: "proveAndSubmit env = (evs, Return r)"
  from run assms have evs: "evs = CallPeek # fst (attemptTask env task)"
    and out: "snd (attemptTask env task) = Return r"
    by (simp_all add: proveAndSubmit_peeked)
  have "filter isDelete (fst (attemptTask env task)) = [CallDelete (task_ID (Task task))] \<and>
        last (fst (attemptTask env task)) = CallDelete (task_ID (Task task))"
  proof (cases "Times task \<le> 2")
    case False
    then show ?thesis
      by (simp add: attemptTask_poisoned submitThenDelete_deletes)
  next
    case True
    with upd have none: "UpdateTimes env task (Times task + 1) = None" by simp
    obtain pevs pout where prun: "prove env task = (pevs, pout)"
      by (cases "prove env task")
    with out True none obtain proofMsg where ret: "pout = Return proofMsg"
      by (cases pout) (simp_all add: attemptTask_proving)
    have "\<forall>e\<in>set pevs. provingCall e"
      using prove_events [of _ env task] prun by auto
    then have quiet: "filter isDelete pevs = []" by (rule filter_isDelete_proving)
    have nonempty: "fst (submitThenDelete env task proofMsg) \<noteq> []"
      using submitThenDelete_events [of env task proofMsg] by auto
    from True none prun ret quiet nonempty show ?thesis
      by (simp add: attemptTask_proving submitThenDelete_deletes)
  qed
  moreover have "fst (attemptTask env task) \<noteq> []"
    using calculation by auto
  ultimately show "filter isDelete evs = [CallDelete (task_ID (Task task))]"
    and "last evs = CallDelete (task_ID (Task task))"
    by (simp_all add: evs)
qed

lemmas prover_run_defs =
  proveAndSubmit_def acquireTask_def attemptTask_def prove_def proveChunk_def
  getSortedTracesByHashes_def sortSlice_def traceLess_def Int64_def submitThenDelete_def
  signAndSubmitProof_def panicDetail_def Let_def

lemma example_run:
  "proveAndSubmit exampleProverEnv =
     ([CallPeek, CallUpdateTimes ''t1'' 1,
       CallGetBlockTraceByHash ''h2'', CallGetBlockTraceByHash ''h1'',
       CallProveChunk ''t1'' [\<lparr>Header_Number = 1, Trace_Data = ''first''\<rparr>,
                             \<lparr>Header_Number = 2, Trace_Data = ''second''\<rparr>],
       CallSign \<lparr>detail_ID = ''t1'', detail_Type = ProofTypeChunk, detail_Status = StatusOk,
                 detail_ChunkProof = Some ''chunk-proof'', detail_BatchProof = None,
                 detail_Error = ''''\<rparr>,
       CallSubmitProof \<lparr>submit_TaskID = ''t1'', submit_Status = StatusOk, submit_Error = '''',
                         submit_ProofType = ProofTypeChunk, submit_Signature = ''sig'',
                         submit_Proof = ''json''\<rparr>,
       CallDelete ''t1''],
      Return None)"
  by (simp add: prover_run_defs exampleProverEnv_def exampleTask_def)

lemma failing_update_run:
  "proveAndSubmit failingUpdateEnv =
     ([CallPeek, CallUpdateTimes ''t1'' 1], Return (Some (ErrorNew ''stack closed'')))"
  by (simp add: prover_run_defs failingUpdateEnv_def exampleProverEnv_def exampleTask_def)

lemma poisoned_run:
  "proveAndSubmit poisonedEnv =
     ([CallPeek,
       CallSign \<lparr>detail_ID = ''t1'', detail_Type = ProofTypeChunk,
                 detail_Status = StatusProofError, detail_ChunkProof = None,
                 detail_BatchProof = None, detail_Error = ''zk proving panic''\<rparr>,
       CallSubmitProof \<lparr>submit_TaskID = ''t1'', submit_Status = StatusProofError,
                         submit_Error = ''zk proving panic'',
                         submit_ProofType = ProofTypeChunk, submit_Signature = ''sig'',
                         submit_Proof = ''json''\<rparr>,
       CallDelete ''t1''],
      Return None)"
  by (simp add: prover_run_defs poisonedEnv_def poisonedTask_def exampleProverEnv_def
      exampleTask_def)

text \<open>
  Claim C3, as stated, fails: a task is peeked from the stack, the stack refuses the new
  counter, and \<^verbatim>\<open>proveAndSubmit\<close> returns that error from line 151, before the deferred
  \<open>Delete\<close> of line 167 is registered. The task is never deleted.
\<close>

theorem update_failure_skips_delete_counterexample:
  "Peek failingUpdateEnv = Inr exampleTask \<and>
   proveAndSubmit failingUpdateEnv =
     ([CallPeek, CallUpdateTimes ''t1'' 1], Return (Some (ErrorNew ''stack closed''))) \<and>
   filter isDelete (fst (proveAndSubmit failingUpdateEnv)) = []"
  by (simp add: failing_update_run) (simp add: failingUpdateEnv_def exampleProverEnv_def)

theorem task_deleted_once_after_attempt_witness:
  "Peek exampleProverEnv = Inr exampleTask \<and>
   UpdateTimes exampleProverEnv exampleTask (Times exampleTask + 1) = None \<and>
   filter isDelete (fst (proveAndSubmit exampleProverEnv)) = [CallDelete ''t1''] \<and>
   Peek failingUpdateEnv = Inr exampleTask \<and>
   UpdateTimes failingUpdateEnv exampleTask (Times exampleTask + 1) \<noteq> None \<and>
   filter isDelete (fst (proveAndSubmit failingUpdateEnv)) = []"
proof -
  have peek: "Peek exampleProverEnv = Inr exampleTask"
    by (simp add: exampleProverEnv_def)
  have upd: "UpdateTimes exampleProverEnv exampleTask (Times exampleTask + 1) = None"
    by (simp add: exampleProverEnv_def)
  have returns: "proveAndSubmit exampleProverEnv = (fst (proveAndSubmit exampleProverEnv), Return None)"
    by (simp add: example_run)
  from task_deleted_once_after_attempt [OF peek] upd returns
  have once: "filter isDelete (fst (proveAndSubmit exampleProverEnv)) =
      [CallDelete (task_ID (Task exampleTask))]"
    by blast
  have peek': "Peek failingUpdateEnv = Inr exampleTask"
    by (simp add: failingUpdateEnv_def exampleProverEnv_def)
  have low: "Times exampleTask \<le> 2"
    by (simp add: exampleTask_def)
  have upd': "UpdateTimes failingUpdateEnv exampleTask (Times exampleTask + 1) \<noteq> None"
    by (simp add: failingUpdateEnv_def)
  from task_deleted_once_after_attempt [OF peek'] low upd'
  obtain err where "proveAndSubmit failingUpdateEnv =
      ([CallPeek, CallUpdateTimes (task_ID (Task exampleTask)) (Times exampleTask + 1)],
       Return (Some err))"
    by blast
  then have never: "filter isDelete (fst (proveAndSubmit failingUpdateEnv)) = []"
    by simp
  from peek upd once peek' upd' never show ?thesis
    by (simp add: exampleTask_def)
qed

lemma fetchTaskFromServer_events:
  "e \<in> set (fst (fetchTaskFromServer env)) \<Longrightarrow>
   e = CallGetLatestConfirmedBlockNumber \<or> (\<exists>req. e = CallProverTasks req)"
  by (auto simp: fetchTaskFromServer_def Let_def
      split: sum.splits option.splits ProofType.splits)

lemma acquireTask_events:
  assumes "e \<in> set (fst (acquireTask env))"
  shows "e = CallPeek \<or> e = CallSleep \<or> e = CallGetLatestConfirmedBlockNumber \<or>
         (\<exists>req. e = CallProverTasks req)"
proof (cases "Peek env")
  case (Inr task)
  with assms show ?thesis by (simp add: acquireTask_def)
next
  case (Inl err)
  show ?thesis
  proof (cases "err = ErrEmpty")
    case False
    with assms Inl show ?thesis by (simp add: acquireTask_def)
  next
    case True
    obtain evs out where run: "fetchTaskFromServer env = (evs, out)"
      by (cases "fetchTaskFromServer env")
    have fetched: "x \<in> set evs \<Longrightarrow>
        x = CallGetLatestConfirmedBlockNumber \<or> (\<exists>req. x = CallProverTasks req)" for x
      using fetchTaskFromServer_events [of x env] run by simp
    from assms Inl True run have "e = CallPeek \<or> e = CallSleep \<or> e \<in> set evs"
      by (auto simp: acquireTask_def split: outcome.splits sum.splits)
    with fetched show ?thesis by blast
  qed
qed

lemma acquireTask_quiet:
  assumes "e \<in> set (fst (acquireTask env))"
  shows "\<not> provingCall e \<and> \<not> isDelete e \<and> (\<forall>d. e \<noteq> CallSign d)"
  using acquireTask_events [OF assms] by (auto simp: provingCall_def isDelete_def)

lemma proveAndSubmit_acquired:
  "acquireTask env = (acquired, Return (Inr task)) \<Longrightarrow>
   proveAndSubmit env = (acquired @ fst (attemptTask env task), snd (attemptTask env task))"
  by (simp add: proveAndSubmit_def split: prod.splits)

lemma example_acquired: "acquireTask exampleProverEnv = ([CallPeek], Return (Inr exampleTask))"
  by (simp add: acquireTask_def exampleProverEnv_def)

lemma poisoned_acquired: "acquireTask poisonedEnv = ([CallPeek], Return (Inr poisonedTask))"
  by (simp add: acquireTask_def poisonedEnv_def)

lemma proveAndSubmit_returns:
  assumes "Peek env = Inr task"
    and "\<And>taskID traces. ProveChunk env taskID traces \<noteq> ProvingPanic"
    and "\<And>taskID infos proofs. ProveBatch env taskID infos proofs \<noteq> ProvingPanic"
  shows "\<exists>r. snd (proveAndSubmit env) = Return r"
proof -
  have chunk: "snd (proveChunk env task) \<noteq> ProvingPanic"
    using assms(2)
    by (auto simp: proveChunk_def split: option.splits prod.splits sum.splits)
  have batch: "snd (proveBatch env task) \<noteq> ProvingPanic"
    using assms(3)
    by (auto simp: proveBatch_def split: option.splits prod.splits)
  have "\<exists>d. snd (prove env task) = Return d"
  proof (cases "cfg_ProofType env")
    case ProofTypeChunk
    with chunk show ?thesis
      by (cases "proveChunk env task") (auto simp: prove_def Let_def split: proving.splits)
  next
    case ProofTypeBatch
    with batch show ?thesis
      by (cases "proveBatch env task") (auto simp: prove_def Let_def split: proving.splits)
  next
    case (ProofTypeOther n)
    then show ?thesis by (simp add: prove_def)
  qed
  then have "\<exists>r. snd (attemptTask env task) = Return r"
    by (cases "prove env task")
      (auto simp: attemptTask_def split: option.splits prod.splits outcome.splits)
  with assms(1) show ?thesis by (simp add: proveAndSubmit_peeked)
qed

text \<open>
  Claim C4. For a task with \<open>Times \<le> 2\<close>, the first call after the task is acquired is
  \<open>UpdateTimes\<close> with \<open>Times + 1\<close>, and nothing before it is a call of \<^verbatim>\<open>prove\<close>; when
  the stack refuses the new counter nothing else is called. So every trace fetch and every
  engine call comes after a counter update that succeeded.
\<close>

theorem retry_counter_persisted_before_proving:
  assumes "acquireTask env = (acquired, Return (Inr task))" and "Times task \<le> 2"
  shows "\<exists>rest. fst (proveAndSubmit env) =
           acquired @ CallUpdateTimes (task_ID (Task task)) (Times task + 1) # rest \<and>
           (\<forall>e\<in>set acquired. \<not> provingCall e) \<and>
           (UpdateTimes env task (Times task + 1) \<noteq> None \<longrightarrow> rest = [])"
proof -
  have quiet: "\<forall>e\<in>set acquired. \<not> provingCall e"
    using acquireTask_quiet [of _ env] assms(1) by simp
  show ?thesis
  proof (cases "UpdateTimes env task (Times task + 1)")
    case (Some err)
    with assms quiet show ?thesis
      by (simp add: proveAndSubmit_acquired attemptTask_update_failed)
  next
    case None
    with assms quiet show ?thesis
      by (cases "prove env task")
        (auto simp: proveAndSubmit_acquired attemptTask_proving split: outcome.splits)
  qed
qed

theorem retry_counter_persisted_before_proving_witness:
  "acquireTask exampleProverEnv = ([CallPeek], Return (Inr exampleTask)) \<and>
   Times exampleTask \<le> 2 \<and>
   (\<exists>rest. fst (proveAndSubmit exampleProverEnv) = [CallPeek] @ CallUpdateTimes ''t1'' 1 # rest) \<and>
   provingCall (fst (proveAndSubmit exampleProverEnv) ! 4)"
proof -
  have low: "Times exampleTask \<le> 2"
    by (simp add: exampleTask_def)
  from retry_counter_persisted_before_proving [OF example_acquired low]
  have "\<exists>rest. fst (proveAndSubmit exampleProverEnv) = [CallPeek] @ CallUpdateTimes ''t1'' 1 # rest"
    by (auto simp: exampleTask_def)
  moreover have "provingCall (fst (proveAndSubmit exampleProverEnv) ! 4)"
    by (simp add: example_run)
  ultimately show ?thesis using example_acquired low by blast
qed

text \<open>
  Claim C5. For a task with \<open>Times > 2\<close>, no call of \<^verbatim>\<open>prove\<close> is made (no trace is
  fetched and the engine is not invoked), and the one detail signed and submitted has status
  \<open>StatusProofError\<close>, the message \<^verbatim>\<open>zk proving panic\<close>, and the identifier and type of
  the task.
\<close>

theorem poisoned_task_not_proved:
  assumes "acquireTask env = (acquired, Return (Inr task))" and "Times task > 2"
  shows "\<exists>d rest r.
           proveAndSubmit env = (acquired @ CallSign d # rest, Return r) \<and>
           detail_Status d = StatusProofError \<and>
           detail_Error d = ''zk proving panic'' \<and>
           detail_ID d = task_ID (Task task) \<and>
           detail_Type d = task_Type (Task task) \<and>
           (\<forall>e\<in>set (acquired @ CallSign d # rest). \<not> provingCall e) \<and>
           (\<forall>e\<in>set (acquired @ rest). \<forall>d'. e \<noteq> CallSign d')"
proof -
  from assms(2) have poisoned: "\<not> Times task \<le> 2" by simp
  have before: "\<forall>e\<in>set acquired. \<not> provingCall e \<and> (\<forall>d'. e \<noteq> CallSign d')"
    using acquireTask_quiet [of _ env] assms(1) by simp
  obtain rest where shape: "fst (submitThenDelete env task (panicDetail task)) =
      CallSign (panicDetail task) # rest @ [CallDelete (task_ID (Task task))]"
    and rest: "\<forall>e\<in>set rest. \<exists>req. e = CallSubmitProof req"
    using submitThenDelete_events by blast
  let ?rest = "rest @ [CallDelete (task_ID (Task task))]"
  have run: "proveAndSubmit env =
      (acquired @ CallSign (panicDetail task) # ?rest,
       Return (snd (submitThenDelete env task (panicDetail task))))"
    using assms(1) poisoned shape by (simp add: proveAndSubmit_acquired attemptTask_poisoned)
  have quiet: "\<forall>e\<in>set (acquired @ CallSign (panicDetail task) # ?rest). \<not> provingCall e"
    using rest before by auto
  have single: "\<forall>e\<in>set (acquired @ ?rest). \<forall>d'. e \<noteq> CallSign d'"
    using rest before by auto
  have fields: "detail_Status (panicDetail task) = StatusProofError \<and>
      detail_Error (panicDetail task) = ''zk proving panic'' \<and>
      detail_ID (panicDetail task) = task_ID (Task task) \<and>
      detail_Type (panicDetail task) = task_Type (Task task)"
    by (simp add: panicDetail_def)
  from run quiet single fields show ?thesis by blast
qed

theorem poisoned_task_not_proved_witness:
  "acquireTask poisonedEnv = ([CallPeek], Return (Inr poisonedTask)) \<and> Times poisonedTask > 2 \<and>
   (\<exists>d rest r. proveAndSubmit poisonedEnv = ([CallPeek] @ CallSign d # rest, Return r) \<and>
      detail_Status d = StatusProofError \<and> detail_Error d = ''zk proving panic'' \<and>
      detail_ID d = ''t1'' \<and> detail_Type d = ProofTypeChunk)"
proof -
  have high: "Times poisonedTask > 2"
    by (simp add: poisonedTask_def)
  from poisoned_task_not_proved [OF poisoned_acquired high] poisoned_acquired high show ?thesis
    by (auto simp: poisonedTask_def exampleTask_def)
qed

text \<open>
  Claim C9, as stated, fails: the detail built for a task that panicked three times
  carries neither a chunk proof nor a batch proof.
\<close>

theorem poisoned_detail_has_no_proof_counterexample:
  "CallSign \<lparr>detail_ID = ''t1'', detail_Type = ProofTypeChunk,
             detail_Status = StatusProofError, detail_ChunkProof = None,
             detail_BatchProof = None, detail_Error = ''zk proving panic''\<rparr>
     \<in> set (fst (proveAndSubmit poisonedEnv))"
  by (simp add: poisoned_run)

text \<open>
  Claim C9, amended. Every detail signed for a task attempt carries the identifier and
  type of the task and at most one proof: none when its status is \<open>StatusProofError\<close>,
  and exactly one, in the field of the prover's configured type, when its status is
  \<open>StatusOk\<close> and that type is chunk or batch. The populated field agrees with the
  detail's own type whenever the task's type is the prover's configured type.
\<close>

theorem proof_detail_populated_by_outcome:
  assumes "acquireTask env = (acquired, Return (Inr task))"
    and "CallSign d \<in> set (fst (proveAndSubmit env))"
  shows "detail_ID d = task_ID (Task task) \<and> detail_Type d = task_Type (Task task) \<and>
         (detail_ChunkProof d = None \<or> detail_BatchProof d = None) \<and>
         (detail_Status d = StatusProofError \<longrightarrow>
            detail_ChunkProof d = None \<and> detail_BatchProof d = None) \<and>
         (detail_Status d = StatusOk \<and> cfg_ProofType env = ProofTypeChunk \<longrightarrow>
            detail_ChunkProof d \<noteq> None \<and> detail_BatchProof d = None) \<and>
         (detail_Status d = StatusOk \<and> cfg_ProofType env = ProofTypeBatch \<longrightarrow>
            detail_BatchProof d \<noteq> None \<and> detail_ChunkProof d = None) \<and>
         (detail_ChunkProof d \<noteq> None \<longrightarrow> cfg_ProofType env = ProofTypeChunk) \<and>
         (detail_BatchProof d \<noteq> None \<longrightarrow> cfg_ProofType env = ProofTypeBatch) \<and>
         (cfg_ProofType env = task_Type (Task task) \<longrightarrow>
            (detail_ChunkProof d \<noteq> None \<longrightarrow> detail_Type d = ProofTypeChunk) \<and>
            (detail_BatchProof d \<noteq> None \<longrightarrow> detail_Type d = ProofTypeBatch))"
proof -
  have "CallSign d \<notin> set acquired"
    using acquireTask_quiet [of "CallSign d" env] assms(1) by auto
  with assms have "CallSign d \<in> set (fst (attemptTask env task))"
    by (simp add: proveAndSubmit_acquired)
  then consider evs where "prove env task = (evs, Return d)" | "d = panicDetail task"
    using attemptTask_signed by blast
  then show ?thesis
  proof cases
    case 1
    from prove_detail [OF 1] show ?thesis .
  next
    case 2
    then show ?thesis by (simp add: panicDetail_def)
  qed
qed

theorem proof_detail_populated_by_outcome_witness:
  "acquireTask exampleProverEnv = ([CallPeek], Return (Inr exampleTask)) \<and>
   CallSign \<lparr>detail_ID = ''t1'', detail_Type = ProofTypeChunk, detail_Status = StatusOk,
             detail_ChunkProof = Some ''chunk-proof'', detail_BatchProof = None,
             detail_Error = ''''\<rparr> \<in> set (fst (proveAndSubmit exampleProverEnv)) \<and>
   cfg_ProofType exampleProverEnv = task_Type (Task exampleTask)"
proof -
  have signed: "CallSign \<lparr>detail_ID = ''t1'', detail_Type = ProofTypeChunk, detail_Status = StatusOk,
             detail_ChunkProof = Some ''chunk-proof'', detail_BatchProof = None,
             detail_Error = ''''\<rparr> \<in> set (fst (proveAndSubmit exampleProverEnv))"
    by (simp add: example_run)
  from proof_detail_populated_by_outcome [OF example_acquired signed] example_acquired signed
  show ?thesis
    by (simp add: exampleProverEnv_def exampleTask_def)
qed

section \<open>Finalizing a committed batch\<close>

lemma ProcessCommittedBatches_batch:
  "GetCommittedBatches env = Inr (hash # later) \<Longrightarrow>
   GetBlockBatches env hash = Inr (batch # others) \<Longrightarrow>
   ProcessCommittedBatches env r =
     (DbUpdateSkippedBatches # DbGetCommittedBatches # DbGetBlockBatches hash #
        fst (processBatch env r hash batch),
      snd (processBatch env r hash batch))"
  by (simp add: ProcessCommittedBatches_def split: prod.splits)

lemma isSend_simps [simp]:
  "isSend (SendTransaction s txID data)" "\<not> isSend DbGetLatestBatch" "\<not> isSend L2SuggestGasPrice"
  "\<not> isSend (DbUpdateL2GasOracleStatusAndOracleTxHash h gs tx)"
  "\<not> isSend (DbUpdateCommitTxHashAndRollupStatus h tx rs)"
  "\<not> isSend DbUpdateSkippedBatches" "\<not> isSend DbGetCommittedBatches"
  "\<not> isSend (DbGetBlockBatches h)" "\<not> isSend (DbUpdateRollupStatus h rs)"
  "\<not> isSend DbGetLatestFinalizingOrFinalizedBatch"
  "\<not> isSend (DbGetVerifiedProofAndInstanceCommitmentsByHash h)"
  "\<not> isSend (DbUpdateFinalizeTxHashAndRollupStatus h tx rs)"
  by (simp_all add: isSend_def)

lemma processBatch_unverified:
  assumes "batch_ProvingStatus batch \<noteq> ProvingTaskVerified"
  shows "snd (processBatch env r hash batch) = r \<and>
         (\<forall>c\<in>set (fst (processBatch env r hash batch)). \<not> isSend c)"
  using assms by (cases "batch_ProvingStatus batch") (simp_all add: processBatch_def)

lemmas finalize_defs =
  ProcessCommittedBatches_def processBatch_def finalizeVerified_def finalizeGuarded_def
  submitFinalize_def

lemma example_finalize_run:
  "ProcessCommittedBatches exampleRelayerEnv exampleRelayer =
     ([DbUpdateSkippedBatches, DbGetCommittedBatches, DbGetBlockBatches ''b1'',
       DbGetLatestFinalizingOrFinalizedBatch,
       DbGetVerifiedProofAndInstanceCommitmentsByHash ''b1'',
       DbUpdateRollupStatus ''b1'' RollupFinalizationSkipped],
      exampleRelayer)"
  by (simp add: finalize_defs exampleRelayerEnv_def exampleBatch_def)

lemma example_gas_run:
  "fst (ProcessGasPriceOracle exampleRelayerEnv exampleRelayer) =
     [DbGetLatestBatch, L2SuggestGasPrice, SendTransaction GasOracleSender ''b1'' [1],
      DbUpdateL2GasOracleStatusAndOracleTxHash ''b1'' GasOracleImporting ''0xa1'']"
  by (simp add: ProcessGasPriceOracle_def shouldUpdateGasPrice_def expectedDelta_def
      exampleRelayerEnv_def exampleRelayer_def exampleBatch_def)

lemma example_rule: "\<not> gasOracleUpdateRule 10 0 2000000 1000000 15"
  by (simp add: gasOracleUpdateRule_def)

text \<open>
  Claim C6. When the batch read by \<^verbatim>\<open>ProcessCommittedBatches\<close> has any proving status
  other than \<open>ProvingTaskVerified\<close> (unassigned, assigned, proved, failed, skipped, or a
  value outside the enumeration), the invocation calls \<open>SendTransaction\<close> on no sender and
  leaves the relayer, with its finalize registry, as it was.
\<close>

theorem unverified_batch_never_finalized:
  assumes "GetCommittedBatches env = Inr (hash # later)"
    and "GetBlockBatches env hash = Inr (batch # others)"
    and "batch_ProvingStatus batch \<noteq> ProvingTaskVerified"
  shows "(\<forall>c\<in>set (fst (ProcessCommittedBatches env r)). \<not> isSend c) \<and>
         snd (ProcessCommittedBatches env r) = r"
  using processBatch_unverified [OF assms(3), of env r hash]
  by (simp add: ProcessCommittedBatches_batch [OF assms(1,2)])

theorem unverified_batch_never_finalized_witness:
  "GetCommittedBatches provedBatchEnv = Inr [''b1''] \<and>
   GetBlockBatches provedBatchEnv ''b1'' =
     Inr [exampleBatch\<lparr>batch_ProvingStatus := ProvingTaskProved\<rparr>] \<and>
   batch_ProvingStatus (exampleBatch\<lparr>batch_ProvingStatus := ProvingTaskProved\<rparr>)
     \<noteq> ProvingTaskVerified \<and>
   filter isSend (fst (ProcessCommittedBatches provedBatchEnv exampleRelayer)) = [] \<and>
   snd (ProcessCommittedBatches provedBatchEnv exampleRelayer) = exampleRelayer"
proof -
  have committed: "GetCommittedBatches provedBatchEnv = Inr [''b1'']"
    by (simp add: provedBatchEnv_def exampleRelayerEnv_def)
  have row: "GetBlockBatches provedBatchEnv ''b1'' =
      Inr [exampleBatch\<lparr>batch_ProvingStatus := ProvingTaskProved\<rparr>]"
    by (simp add: provedBatchEnv_def)
  have status: "batch_ProvingStatus (exampleBatch\<lparr>batch_ProvingStatus := ProvingTaskProved\<rparr>)
      \<noteq> ProvingTaskVerified"
    by simp
  from unverified_batch_never_finalized [OF committed row status, of exampleRelayer]
  have "filter isSend (fst (ProcessCommittedBatches provedBatchEnv exampleRelayer)) = []"
    and "snd (ProcessCommittedBatches provedBatchEnv exampleRelayer) = exampleRelayer"
    by (simp_all add: filter_empty_conv)
  with committed row status show ?thesis by (intro conjI)
qed

text \<open>
  Claim C7, amended. The rate limit compares creation times, not finalize times: when the
  lookup of the latest finalizing or finalized batch succeeds and the current \<open>Verified\<close>
  batch was created fewer than \<open>FinalizeBatchIntervalSec\<close> seconds after that batch was
  created (the difference as line 662 computes it), the invocation asks the store to write
  \<open>RollupFinalizationSkipped\<close> for the batch and returns: its calls are exactly the five
  listed, none of them a send. The answer of the store to the write is only logged.
\<close>

theorem finalize_within_interval_is_skipped:
  assumes "GetCommittedBatches env = Inr (hash # later)"
    and "GetBlockBatches env hash = Inr (batch # others)"
    and "batch_ProvingStatus batch = ProvingTaskVerified"
    and "GetLatestFinalizingOrFinalizedBatch env = Inr previousBatch"
    and "ElapsedSeconds env (batch_CreatedAt batch) (batch_CreatedAt previousBatch)
           < FinalizeBatchIntervalSec r"
  shows "ProcessCommittedBatches env r =
           ([DbUpdateSkippedBatches, DbGetCommittedBatches, DbGetBlockBatches hash,
             DbGetLatestFinalizingOrFinalizedBatch,
             DbUpdateRollupStatus hash RollupFinalizationSkipped], r)"
  using assms(3,4,5)
  by (simp add: ProcessCommittedBatches_batch [OF assms(1,2)] processBatch_def
      finalizeVerified_def)

theorem finalize_within_interval_is_skipped_witness:
  "GetLatestFinalizingOrFinalizedBatch recentFinalizeEnv =
     Inr (exampleBatch\<lparr>batch_Hash := ''b0'', batch_RollupStatus := RollupFinalized,
                       batch_CreatedAt := 990\<rparr>) \<and>
   ElapsedSeconds recentFinalizeEnv 1000 990 < FinalizeBatchIntervalSec exampleRelayer \<and>
   ProcessCommittedBatches recentFinalizeEnv exampleRelayer =
     ([DbUpdateSkippedBatches, DbGetCommittedBatches, DbGetBlockBatches ''b1'',
       DbGetLatestFinalizingOrFinalizedBatch,
       DbUpdateRollupStatus ''b1'' RollupFinalizationSkipped], exampleRelayer)"
proof -
  let ?previous = "exampleBatch\<lparr>batch_Hash := ''b0'', batch_RollupStatus := RollupFinalized,
                       batch_CreatedAt := 990\<rparr>"
  have committed: "GetCommittedBatches recentFinalizeEnv = Inr [''b1'']"
    by (simp add: recentFinalizeEnv_def exampleRelayerEnv_def)
  have row: "GetBlockBatches recentFinalizeEnv ''b1'' = Inr [exampleBatch]"
    by (simp add: recentFinalizeEnv_def exampleRelayerEnv_def)
  have status: "batch_ProvingStatus exampleBatch = ProvingTaskVerified"
    by (simp add: exampleBatch_def)
  have previous: "GetLatestFinalizingOrFinalizedBatch recentFinalizeEnv = Inr ?previous"
    by (simp add: recentFinalizeEnv_def)
  have elapsed: "ElapsedSeconds recentFinalizeEnv 1000 990 < FinalizeBatchIntervalSec exampleRelayer"
    by (simp add: recentFinalizeEnv_def exampleRelayerEnv_def exampleRelayer_def)
  then have recent: "ElapsedSeconds recentFinalizeEnv (batch_CreatedAt exampleBatch)
      (batch_CreatedAt ?previous) < FinalizeBatchIntervalSec exampleRelayer"
    by (simp add: exampleBatch_def)
  from finalize_within_interval_is_skipped [OF committed row status previous recent]
    previous elapsed
  show ?thesis by blast
qed

lemma still_finalizing_run:
  "ProcessCommittedBatches stillFinalizingEnv exampleRelayer =
     ([DbUpdateSkippedBatches, DbGetCommittedBatches, DbGetBlockBatches ''b1'',
       DbGetLatestFinalizingOrFinalizedBatch,
       DbGetVerifiedProofAndInstanceCommitmentsByHash ''b1'',
       SendTransaction RollupSender ''b1-finalize'' [3],
       DbUpdateFinalizeTxHashAndRollupStatus ''b1'' ''0xb2'' RollupFinalizing],
      exampleRelayer\<lparr>processingFinalization := [''b1-finalize'' \<mapsto> ''b1'']\<rparr>)"
  by (simp add: finalize_defs stillFinalizingEnv_def exampleRelayerEnv_def exampleBatch_def
      exampleRelayer_def Let_def)

text \<open>
  Claim C7, as stated, fails: the previous batch is still finalizing when the invocation
  runs, so its finalization is more recent than any interval, but it was created 1000
  seconds before the current batch, against an interval of 60. Line 662 reads neither the
  status nor a finalize time of the previous batch: the finalize transaction is sent and
  no \<open>RollupFinalizationSkipped\<close> is written.
\<close>

theorem finalize_while_previous_finalizing_counterexample:
  "batch_ProvingStatus exampleBatch = ProvingTaskVerified \<and>
   GetLatestFinalizingOrFinalizedBatch stillFinalizingEnv =
     Inr (exampleBatch\<lparr>batch_Hash := ''b0'', batch_RollupStatus := RollupFinalizing,
                       batch_CreatedAt := 0\<rparr>) \<and>
   FinalizeBatchIntervalSec exampleRelayer = 60 \<and>
   SendTransaction RollupSender ''b1-finalize'' [3]
     \<in> set (fst (ProcessCommittedBatches stillFinalizingEnv exampleRelayer)) \<and>
   DbUpdateRollupStatus ''b1'' RollupFinalizationSkipped
     \<notin> set (fst (ProcessCommittedBatches stillFinalizingEnv exampleRelayer))"
  by (simp add: still_finalizing_run)
    (simp add: stillFinalizingEnv_def exampleBatch_def exampleRelayer_def)

text \<open>
  Claim C1, as stated, fails: the batch is \<open>Verified\<close>, its proof and instance buffers
  are missing, and the invocation ends by writing \<open>RollupFinalizationSkipped\<close> for the
  batch, a write that the store accepts. The write comes from the deferred function of
  line 687, registered before the buffers are fetched.
\<close>

theorem rejected_buffers_are_marked_counterexample:
  "batch_ProvingStatus exampleBatch = ProvingTaskVerified \<and>
   GetVerifiedProofAndInstanceCommitmentsByHash exampleRelayerEnv ''b1'' = Inr (None, None) \<and>
   UpdateRollupStatus exampleRelayerEnv ''b1'' RollupFinalizationSkipped = None \<and>
   ProcessCommittedBatches exampleRelayerEnv exampleRelayer =
     ([DbUpdateSkippedBatches, DbGetCommittedBatches, DbGetBlockBatches ''b1'',
       DbGetLatestFinalizingOrFinalizedBatch,
       DbGetVerifiedProofAndInstanceCommitmentsByHash ''b1'',
       DbUpdateRollupStatus ''b1'' RollupFinalizationSkipped],
      exampleRelayer)"
  by (simp add: example_finalize_run) (simp add: exampleRelayerEnv_def exampleBatch_def)

lemma submitFinalize_rejected:
  assumes "GetVerifiedProofAndInstanceCommitmentsByHash env hash = Inr (proofBuffer, icBuffer)"
    and "proofBuffer = None \<or> icBuffer = None \<or>
         length (the proofBuffer) mod 32 \<noteq> 0 \<or> length (the icBuffer) mod 32 \<noteq> 0"
  shows "submitFinalize env r hash =
           ([DbGetVerifiedProofAndInstanceCommitmentsByHash hash], False, r)"
  using assms by (cases proofBuffer; cases icBuffer) (auto simp: submitFinalize_def)

text \<open>
  Claim C1, amended. In the \<open>Verified\<close> branch, past the rate limit, when the proof
  buffer or the instance buffer is missing or has a length that is not a multiple of 32,
  the invocation sends no transaction and leaves the relayer unchanged, and its last call
  asks the store to write \<open>RollupFinalizationSkipped\<close> for the batch. The answer of the
  store is not part of the premises: the code only logs it, so the run is the same whether
  the write is accepted or refused.
\<close>

theorem rejected_buffers_mark_finalization_skipped:
  assumes "GetCommittedBatches env = Inr (hash # later)"
    and "GetBlockBatches env hash = Inr (batch # others)"
    and "batch_ProvingStatus batch = ProvingTaskVerified"
    and "case GetLatestFinalizingOrFinalizedBatch env of
           Inr previousBatch \<Rightarrow>
             \<not> ElapsedSeconds env (batch_CreatedAt batch) (batch_CreatedAt previousBatch)
                 < FinalizeBatchIntervalSec r
         | Inl msg \<Rightarrow> msg = ''sql: no rows in result set''"
    and "GetVerifiedProofAndInstanceCommitmentsByHash env hash = Inr (proofBuffer, icBuffer)"
    and "proofBuffer = None \<or> icBuffer = None \<or>
         length (the proofBuffer) mod 32 \<noteq> 0 \<or> length (the icBuffer) mod 32 \<noteq> 0"
  shows "ProcessCommittedBatches env r =
           ([DbUpdateSkippedBatches, DbGetCommittedBatches, DbGetBlockBatches hash,
             DbGetLatestFinalizingOrFinalizedBatch,
             DbGetVerifiedProofAndInstanceCommitmentsByHash hash,
             DbUpdateRollupStatus hash RollupFinalizationSkipped], r)"
proof -
  have guarded: "finalizeGuarded env r hash =
      ([DbGetVerifiedProofAndInstanceCommitmentsByHash hash,
        DbUpdateRollupStatus hash RollupFinalizationSkipped], r)"
    by (simp add: finalizeGuarded_def submitFinalize_rejected [OF assms(5,6)])
  have "finalizeVerified env r hash batch =
      ([DbGetLatestFinalizingOrFinalizedBatch,
        DbGetVerifiedProofAndInstanceCommitmentsByHash hash,
        DbUpdateRollupStatus hash RollupFinalizationSkipped], r)"
    using assms(4) by (cases "GetLatestFinalizingOrFinalizedBatch env")
      (simp_all add: finalizeVerified_def guarded)
  with assms(3) show ?thesis
    by (simp add: ProcessCommittedBatches_batch [OF assms(1,2)] processBatch_def)
qed

theorem rejected_buffers_mark_finalization_skipped_witness:
  "GetVerifiedProofAndInstanceCommitmentsByHash shortProofEnv ''b1'' = Inr (Some [7], Some []) \<and>
   length [7 :: 8 word] mod 32 \<noteq> 0 \<and>
   ProcessCommittedBatches shortProofEnv exampleRelayer =
     ([DbUpdateSkippedBatches, DbGetCommittedBatches, DbGetBlockBatches ''b1'',
       DbGetLatestFinalizingOrFinalizedBatch,
       DbGetVerifiedProofAndInstanceCommitmentsByHash ''b1'',
       DbUpdateRollupStatus ''b1'' RollupFinalizationSkipped],
      exampleRelayer)"
proof -
  have committed: "GetCommittedBatches shortProofEnv = Inr [''b1'']"
    by (simp add: shortProofEnv_def exampleRelayerEnv_def)
  have row: "GetBlockBatches shortProofEnv ''b1'' = Inr [exampleBatch]"
    by (simp add: shortProofEnv_def exampleRelayerEnv_def)
  have status: "batch_ProvingStatus exampleBatch = ProvingTaskVerified"
    by (simp add: exampleBatch_def)
  have history: "case GetLatestFinalizingOrFinalizedBatch shortProofEnv of
           Inr previousBatch \<Rightarrow>
             \<not> ElapsedSeconds shortProofEnv (batch_CreatedAt exampleBatch)
                 (batch_CreatedAt previousBatch) < FinalizeBatchIntervalSec exampleRelayer
         | Inl msg \<Rightarrow> msg = ''sql: no rows in result set''"
    by (simp add: shortProofEnv_def exampleRelayerEnv_def)
  have buffers: "GetVerifiedProofAndInstanceCommitmentsByHash shortProofEnv ''b1'' =
      Inr (Some [7], Some [])"
    by (simp add: shortProofEnv_def)
  have short: "length [7 :: 8 word] mod 32 \<noteq> 0"
    by simp
  then have rejected: "Some [7 :: 8 word] = None \<or> Some ([] :: bytes) = None \<or>
      length (the (Some [7 :: 8 word])) mod 32 \<noteq> 0 \<or>
      length (the (Some ([] :: bytes))) mod 32 \<noteq> 0"
    by simp
  from rejected_buffers_mark_finalization_skipped
    [OF committed row status history buffers rejected] buffers short
  show ?thesis by blast
qed

section \<open>The gas price oracle\<close>

lemma unat_expectedDelta:
  assumes "unat l * unat d < 2 ^ 64"
  shows "unat (expectedDelta l d p) = unat l * unat d div unat p"
proof -
  from assms have "unat (l * d) = unat l * unat d"
    using unat_mult_lem [of l d] by simp
  then show ?thesis by (simp add: expectedDelta_def unat_div)
qed

lemma shouldUpdateGasPrice_no_wrap:
  assumes mult: "unat l * unat d < 2 ^ 64"
    and below: "unat l * unat d div unat p \<le> unat l"
    and above: "unat l + unat l * unat d div unat p < 2 ^ 64"
  shows "shouldUpdateGasPrice l m d p s \<longleftrightarrow>
         gasOracleUpdateRule (unat l) (unat m) (unat d) (unat p) (unat s)"
proof -
  let ?delta = "unat l * unat d div unat p"
  have delta: "unat (expectedDelta l d p) = ?delta"
    using mult by (rule unat_expectedDelta)
  have sum: "unat (l + expectedDelta l d p) = unat l + ?delta"
    using above delta unat_add_lem [of l "expectedDelta l d p"] by simp
  have "expectedDelta l d p \<le> l"
    using below delta by (simp add: word_le_nat_alt)
  then have diff: "unat (l - expectedDelta l d p) = unat l - ?delta"
    using delta by (simp add: unat_sub)
  have zero: "l = 0 \<longleftrightarrow> unat l = 0"
    by (simp add: unat_eq_0)
  show ?thesis
    unfolding shouldUpdateGasPrice_def gasOracleUpdateRule_def word_le_nat_alt sum diff zero
    using below by auto
qed

lemma ProcessGasPriceOracle_sends:
  assumes "GetLatestBatch env = Inr batch"
    and "batch_OracleStatus batch = GasOraclePending"
    and "SuggestGasPrice env = Inr suggest"
    and "PackSetL2BaseFee env suggest = Inr data"
  shows "(\<exists>c\<in>set (fst (ProcessGasPriceOracle env r)). isSend c) \<longleftrightarrow>
         shouldUpdateGasPrice (lastGasPrice r) (minGasPrice r) (gasPriceDiff r)
           (gasPriceDiffPrecision env) (word_of_int suggest)"
  using assms
  by (simp add: ProcessGasPriceOracle_def Let_def split: sum.splits option.splits)

text \<open>
  Where the arithmetic of line 523 stays within \<^verbatim>\<open>uint64\<close>, the code implements the
  rule of the specification: on a latest batch whose oracle status is pending, with a
  suggested price that fits in 64 unsigned bits and a call that the ABI encoder accepts,
  and as long as none of \<open>lastPrice * diffRatio\<close>, \<open>lastPrice + delta\<close> and
  \<open>lastPrice - delta\<close> leaves the range, a transaction is handed to the sender if and only
  if the rule holds, boundary values included.
\<close>

lemma gas_price_rule_within_range:
  assumes "GetLatestBatch env = Inr batch"
    and "batch_OracleStatus batch = GasOraclePending"
    and "SuggestGasPrice env = Inr suggest"
    and "0 \<le> suggest" and "suggest < 2 ^ 64"
    and "PackSetL2BaseFee env suggest = Inr data"
    and "unat (lastGasPrice r) * unat (gasPriceDiff r) < 2 ^ 64"
    and "unat (lastGasPrice r) * unat (gasPriceDiff r) div unat (gasPriceDiffPrecision env)
           \<le> unat (lastGasPrice r)"
    and "unat (lastGasPrice r) +
           unat (lastGasPrice r) * unat (gasPriceDiff r) div unat (gasPriceDiffPrecision env)
           < 2 ^ 64"
  shows "(\<exists>c\<in>set (fst (ProcessGasPriceOracle env r)). isSend c) \<longleftrightarrow>
         gasOracleUpdateRule (unat (lastGasPrice r)) (unat (minGasPrice r))
           (unat (gasPriceDiff r)) (unat (gasPriceDiffPrecision env)) (nat suggest)"
proof -
  have "unat (word_of_int suggest :: 64 word) = nat suggest"
    using assms(4,5) by (simp add: unat_eq_nat_uint uint_word_of_int)
  then show ?thesis
    using ProcessGasPriceOracle_sends [OF assms(1,2,3,6), of r]
      shouldUpdateGasPrice_no_wrap [OF assms(7,8,9), of "minGasPrice r" "word_of_int suggest"]
    by simp
qed

text \<open>
  Claim C2. The rule of the claim is the one the comment of line 522 announces (the last
  price is undefined, or the suggested price is at least the floor and exceeds the
  difference), and the code departs from it: \<open>gasPriceDiff\<close> is taken from the
  configuration unchecked, and with a last price of 10, a difference ratio of twice the
  precision and a suggested price of 15, the expected delta is 20 and \<open>10 - 20\<close> wraps
  around to \<open>2 ^ 64 - 10\<close>. The suggested price is below that, so the test of line 523
  holds and the transaction is handed to the sender, although the price moved by 5, less
  than the delta of 20, and the rule does not hold.
\<close>

theorem gas_price_underflow_fires:
  "GetLatestBatch exampleRelayerEnv = Inr exampleBatch \<and>
   batch_OracleStatus exampleBatch = GasOraclePending \<and>
   SuggestGasPrice exampleRelayerEnv = Inr 15 \<and>
   lastGasPrice exampleRelayer = 10 \<and> minGasPrice exampleRelayer = 0 \<and>
   gasPriceDiff exampleRelayer = 2000000 \<and> gasPriceDiffPrecision exampleRelayerEnv = 1000000 \<and>
   expectedDelta 10 2000000 1000000 = 20 \<and>
   (10 :: 64 word) - 20 = 18446744073709551606 \<and>
   shouldUpdateGasPrice 10 0 2000000 1000000 15 \<and>
   fst (ProcessGasPriceOracle exampleRelayerEnv exampleRelayer) =
     [DbGetLatestBatch, L2SuggestGasPrice, SendTransaction GasOracleSender ''b1'' [1],
      DbUpdateL2GasOracleStatusAndOracleTxHash ''b1'' GasOracleImporting ''0xa1''] \<and>
   gasOracleUpdateRule 10 0 2000000 1000000 15 = False"
  by (simp add: example_gas_run example_rule)
    (simp add: exampleRelayerEnv_def exampleRelayer_def exampleBatch_def expectedDelta_def
      shouldUpdateGasPrice_def)

lemma boundary_gas_facts:
  "GetLatestBatch boundaryGasEnv = Inr exampleBatch"
  "batch_OracleStatus exampleBatch = GasOraclePending"
  "SuggestGasPrice boundaryGasEnv = Inr 105"
  "PackSetL2BaseFee boundaryGasEnv 105 = Inr [1]"
  "unat (lastGasPrice steadyRelayer) = 100"
  "unat (minGasPrice steadyRelayer) = 0"
  "unat (gasPriceDiff steadyRelayer) = 50000"
  "unat (gasPriceDiffPrecision boundaryGasEnv) = 1000000"
  by (simp_all add: boundaryGasEnv_def exampleRelayerEnv_def exampleBatch_def steadyRelayer_def
      exampleRelayer_def)

lemma boundary_price_is_sent:
  "GetLatestBatch boundaryGasEnv = Inr exampleBatch \<and>
   batch_OracleStatus exampleBatch = GasOraclePending \<and>
   SuggestGasPrice boundaryGasEnv = Inr 105 \<and>
   PackSetL2BaseFee boundaryGasEnv 105 = Inr [1] \<and>
   unat (lastGasPrice steadyRelayer) * unat (gasPriceDiff steadyRelayer) < 2 ^ 64 \<and>
   gasOracleUpdateRule 100 0 50000 1000000 105 \<and>
   filter isSend (fst (ProcessGasPriceOracle boundaryGasEnv steadyRelayer)) \<noteq> []"
proof -
  have range: "(0::int) \<le> 105" "(105::int) < 2 ^ 64"
    by simp_all
  have mult: "unat (lastGasPrice steadyRelayer) * unat (gasPriceDiff steadyRelayer) < 2 ^ 64"
    by (simp add: boundary_gas_facts)
  have below: "unat (lastGasPrice steadyRelayer) * unat (gasPriceDiff steadyRelayer)
      div unat (gasPriceDiffPrecision boundaryGasEnv) \<le> unat (lastGasPrice steadyRelayer)"
    by (simp add: boundary_gas_facts)
  have above: "unat (lastGasPrice steadyRelayer) +
      unat (lastGasPrice steadyRelayer) * unat (gasPriceDiff steadyRelayer)
        div unat (gasPriceDiffPrecision boundaryGasEnv) < 2 ^ 64"
    by (simp add: boundary_gas_facts)
  have rule: "gasOracleUpdateRule 100 0 50000 1000000 105"
    by (simp add: gasOracleUpdateRule_def)
  have "(\<exists>c\<in>set (fst (ProcessGasPriceOracle boundaryGasEnv steadyRelayer)). isSend c) \<longleftrightarrow>
      gasOracleUpdateRule 100 0 50000 1000000 (nat 105)"
    using gas_price_rule_within_range
      [OF boundary_gas_facts(1,2,3) range boundary_gas_facts(4) mult below above]
    by (simp only: boundary_gas_facts)
  with rule have sends: "filter isSend (fst (ProcessGasPriceOracle boundaryGasEnv steadyRelayer)) \<noteq> []"
    by (simp add: filter_empty_conv)
  from boundary_gas_facts(1,2,3,4) mult rule sends show ?thesis
    by (intro conjI)
qed

section \<open>Committing batches\<close>

lemma isRollupWrite_simps [simp]:
  "\<not> isRollupWrite (SendTransaction s txID data)"
  "isRollupWrite (DbUpdateCommitTxHashAndRollupStatus h tx rs)"
  "isRollupWrite (DbUpdateRollupStatus h rs)"
  "isRollupWrite (DbUpdateFinalizeTxHashAndRollupStatus h tx rs)"
  by (simp_all add: isRollupWrite_def)

text \<open>
  Claim C10. In \<^verbatim>\<open>SendCommitTx\<close>, a rollup status is written or the relayer changes
  only if the encoder accepted the batches and \<open>SendTransaction\<close> returned a transaction
  hash; then the calls are the send followed by one \<open>RollupCommitting\<close> write per batch
  of the list, in order, and the registry gains the single entry keyed by the
  confirmation ID. When \<open>SendTransaction\<close> returns an error, whichever it is, the send is
  the only call, the error is returned and the relayer is unchanged.
\<close>

theorem commit_writes_only_after_send:
  assumes "SendCommitTx env r batchData = (calls, result, r')"
  shows "((\<exists>c\<in>set calls. isRollupWrite c) \<or> r' \<noteq> r \<longrightarrow>
            (\<exists>calldata txHash.
               PackCommitBatches env (map Batch batchData) = Inr calldata \<and>
               RollupSendTransaction env
                 (Hex env (Keccak256Hash env (concat (map data_Hash batchData)))) calldata
                 = Inr txHash \<and>
               calls =
                 SendTransaction RollupSender
                   (Hex env (Keccak256Hash env (concat (map data_Hash batchData)))) calldata #
                 map (\<lambda>batch. DbUpdateCommitTxHashAndRollupStatus (Hex env (data_Hash batch))
                                 txHash RollupCommitting) batchData \<and>
               result = None \<and>
               r' = r\<lparr>processingBatchesCommitment :=
                        (processingBatchesCommitment r)
                          (Hex env (Keccak256Hash env (concat (map data_Hash batchData))) \<mapsto>
                           map (\<lambda>batch. Hex env (data_Hash batch)) batchData)\<rparr>)) \<and>
         (\<forall>calldata err.
            batchData \<noteq> [] \<and>
            PackCommitBatches env (map Batch batchData) = Inr calldata \<and>
            RollupSendTransaction env
              (Hex env (Keccak256Hash env (concat (map data_Hash batchData)))) calldata
              = Inl err \<longrightarrow>
            calls = [SendTransaction RollupSender
                       (Hex env (Keccak256Hash env (concat (map data_Hash batchData)))) calldata] \<and>
            result = Some err \<and> r' = r)"
proof (cases "batchData = []")
  case True
  with assms show ?thesis by (simp add: SendCommitTx_def)
next
  case False
  show ?thesis
  proof (cases "PackCommitBatches env (map Batch batchData)")
    case (Inl err)
    with assms False show ?thesis by (simp add: SendCommitTx_def)
  next
    case (Inr calldata)
    show ?thesis
    proof (cases "RollupSendTransaction env
        (Hex env (Keccak256Hash env (concat (map data_Hash batchData)))) calldata")
      case (Inl err)
      with assms False Inr show ?thesis by (auto simp: SendCommitTx_def Let_def)
    next
      case sent: (Inr txHash)
      with assms False Inr show ?thesis by (auto simp: SendCommitTx_def Let_def comp_def)
    qed
  qed
qed

lemma example_commit_run:
  "SendCommitTx exampleRelayerEnv exampleRelayer exampleBatchData =
     ([SendTransaction RollupSender ''fff0'' [2],
       DbUpdateCommitTxHashAndRollupStatus ''0f'' ''0xb2'' RollupCommitting,
       DbUpdateCommitTxHashAndRollupStatus ''ff'' ''0xb2'' RollupCommitting],
      None,
      exampleRelayer\<lparr>processingBatchesCommitment := [''fff0'' \<mapsto> [''0f'', ''ff'']]\<rparr>)"
  by (simp add: SendCommitTx_def Let_def exampleRelayerEnv_def exampleBatchData_def
      exampleRelayer_def)

lemma full_pending_commit_run:
  "SendCommitTx fullPendingEnv exampleRelayer exampleBatchData =
     ([SendTransaction RollupSender ''fff0'' [2]], Some ErrFullPending, exampleRelayer)"
  by (simp add: SendCommitTx_def Let_def fullPendingEnv_def exampleRelayerEnv_def
      exampleBatchData_def)

theorem commit_writes_only_after_send_witness:
  "SendCommitTx fullPendingEnv exampleRelayer exampleBatchData =
     ([SendTransaction RollupSender ''fff0'' [2]], Some ErrFullPending, exampleRelayer) \<and>
   exampleBatchData \<noteq> [] \<and>
   PackCommitBatches fullPendingEnv (map Batch exampleBatchData) = Inr [2] \<and>
   RollupSendTransaction fullPendingEnv
     (Hex fullPendingEnv (Keccak256Hash fullPendingEnv (concat (map data_Hash exampleBatchData))))
     [2] = Inl ErrFullPending \<and>
   isRollupWrite (DbUpdateCommitTxHashAndRollupStatus ''0f'' ''0xb2'' RollupCommitting) \<and>
   RollupSendTransaction exampleRelayerEnv ''fff0'' [2] = Inr ''0xb2''"
proof -
  have nonempty: "exampleBatchData \<noteq> []"
    by (simp add: exampleBatchData_def)
  have packed: "PackCommitBatches fullPendingEnv (map Batch exampleBatchData) = Inr [2]"
    by (simp add: fullPendingEnv_def exampleRelayerEnv_def)
  have refused: "RollupSendTransaction fullPendingEnv
     (Hex fullPendingEnv (Keccak256Hash fullPendingEnv (concat (map data_Hash exampleBatchData))))
     [2] = Inl ErrFullPending"
    by (simp add: fullPendingEnv_def)
  from commit_writes_only_after_send [OF full_pending_commit_run] nonempty packed refused
  have failed: "[SendTransaction RollupSender ''fff0'' [2]] =
      [SendTransaction RollupSender
         (Hex fullPendingEnv (Keccak256Hash fullPendingEnv (concat (map data_Hash exampleBatchData))))
         [2]]"
    by blast
  have written: "\<exists>c\<in>set [SendTransaction RollupSender ''fff0'' [2],
       DbUpdateCommitTxHashAndRollupStatus ''0f'' ''0xb2'' RollupCommitting,
       DbUpdateCommitTxHashAndRollupStatus ''ff'' ''0xb2'' RollupCommitting]. isRollupWrite c"
    by simp
  from commit_writes_only_after_send [OF example_commit_run] written
  obtain calldata txHash where
    "RollupSendTransaction exampleRelayerEnv
       (Hex exampleRelayerEnv (Keccak256Hash exampleRelayerEnv (concat (map data_Hash exampleBatchData))))
       calldata = Inr txHash"
    by blast
  then have sent: "RollupSendTransaction exampleRelayerEnv ''fff0'' [2] = Inr ''0xb2''"
    by (simp add: exampleRelayerEnv_def)
  have marks: "isRollupWrite (DbUpdateCommitTxHashAndRollupStatus ''0f'' ''0xb2'' RollupCommitting)"
    by simp
  from full_pending_commit_run nonempty packed refused marks sent show ?thesis
    by (intro conjI)
qed

end
